theory Spec2Isabelle
  imports Main
begin

section \<open>Python values\<close>

text \<open>
  The program passes issues, extraction results and records around as Python dicts whose
  values are \<open>None\<close>, booleans, integers, strings, lists and dicts. Strings are lists of
  characters read as the code points U+0000 .. U+00FF; a dict is an association list
  (insertion order kept, looked up with \<open>map_of\<close>). JSON numbers are integers.
\<close>

datatype pyval =
    PNone
  | PBool bool
  | PInt int
  | PStr string
  | PList "pyval list"
  | PDict "(string \<times> pyval) list"

type_synonym pydict = "(string \<times> pyval) list"

text \<open>Truth value testing, as \<open>not x\<close>, \<open>x or y\<close> and \<open>if x\<close> apply it.\<close>

fun py_truthy :: "pyval \<Rightarrow> bool" where
  "py_truthy PNone = False"
| "py_truthy (PBool b) = b"
| "py_truthy (PInt i) = (i \<noteq> 0)"
| "py_truthy (PStr s) = (s \<noteq> [])"
| "py_truthy (PList xs) = (xs \<noteq> [])"
| "py_truthy (PDict kvs) = (kvs \<noteq> [])"

definition py_or :: "pyval \<Rightarrow> pyval \<Rightarrow> pyval" where
  "py_or x y = (if py_truthy x then x else y)"

fun is_list :: "pyval \<Rightarrow> bool" where
  "is_list (PList xs) = True"
| "is_list v = False"

fun is_str :: "pyval \<Rightarrow> bool" where
  "is_str (PStr s) = True"
| "is_str v = False"

text \<open>\<open>d.get(k)\<close> and \<open>d.get(k, default)\<close>.\<close>

definition dict_get_default :: "pydict \<Rightarrow> string \<Rightarrow> pyval \<Rightarrow> pyval" where
  "dict_get_default d k dflt = (case map_of d k of None \<Rightarrow> dflt | Some v \<Rightarrow> v)"

definition dict_get :: "pydict \<Rightarrow> string \<Rightarrow> pyval" where
  "dict_get d k = dict_get_default d k PNone"

subsection \<open>\<open>str()\<close> and \<open>repr()\<close>\<close>

definition digit_char :: "nat \<Rightarrow> char" where
  "digit_char d = char_of (of_char CHR ''0'' + d)"

fun nat_digits :: "nat \<Rightarrow> string" where
  "nat_digits n = (if n < 10 then [digit_char n] else nat_digits (n div 10) @ [digit_char (n mod 10)])"

definition str_int :: "int \<Rightarrow> string" where
  "str_int i = (if i < 0 then CHR ''-'' # nat_digits (nat (- i)) else nat_digits (nat i))"

definition hex_char :: "nat \<Rightarrow> char" where
  "hex_char d = (if d < 10 then digit_char d else char_of (of_char CHR ''a'' + (d - 10)))"

text \<open>
  \<open>repr\<close> of a string: single quotes unless the string holds a single quote and no double
  quote; the quote and the backslash are escaped, tab, newline and carriage return are
  written \<open>\t\<close>, \<open>\n\<close>, \<open>\r\<close>, and the characters that are not printable
  (controls, DEL, U+0080 .. U+00A0, U+00AD) as \<open>\xhh\<close>.
\<close>

definition py_printable :: "char \<Rightarrow> bool" where
  "py_printable c = (let n = (of_char c :: nat) in
     (32 \<le> n \<and> n < 127) \<or> (161 \<le> n \<and> n \<noteq> 173))"

definition repr_char :: "char \<Rightarrow> char \<Rightarrow> string" where
  "repr_char q c =
    (if c = q \<or> c = CHR 0x5C then [CHR 0x5C, c]
     else if c = CHR 0x09 then [CHR 0x5C, CHR ''t'']
     else if c = CHR 0x0A then [CHR 0x5C, CHR ''n'']
     else if c = CHR 0x0D then [CHR 0x5C, CHR ''r'']
     else if py_printable c then [c]
     else [CHR 0x5C, CHR ''x'', hex_char (of_char c div 16), hex_char (of_char c mod 16)])"

definition repr_str :: "string \<Rightarrow> string" where
  "repr_str s =
    (let q = (if CHR 0x27 \<in> set s \<and> CHR 0x22 \<notin> set s then CHR 0x22 else CHR 0x27)
     in [q] @ concat (map (repr_char q) s) @ [q])"

fun join :: "string \<Rightarrow> string list \<Rightarrow> string" where
  "join sep [] = []"
| "join sep [x] = x"
| "join sep (x # y # ys) = x @ sep @ join sep (y # ys)"

fun py_repr :: "pyval \<Rightarrow> string" where
  "py_repr PNone = ''None''"
| "py_repr (PBool b) = (if b then ''True'' else ''False'')"
| "py_repr (PInt i) = str_int i"
| "py_repr (PStr s) = repr_str s"
| "py_repr (PList xs) = ''['' @ join '', '' (map py_repr xs) @ '']''"
| "py_repr (PDict kvs) =
     ''{'' @ join '', '' (map (\<lambda>(k, v). repr_str k @ '': '' @ py_repr v) kvs) @ ''}''"

definition py_str :: "pyval \<Rightarrow> string" where
  "py_str v = (case v of PStr s \<Rightarrow> s | _ \<Rightarrow> py_repr v)"

section \<open>Exceptions\<close>

datatype exc =
    ValueError
  | RuntimeError
  | TypeError
  | AttributeError
  | UnboundLocalError
  | JSONDecodeError
  | RequestException
  | KeyError

section \<open>Storage gateway (storage/mysql\_client.py)\<close>

text \<open>
  One row of table \<open>standardized_defect\<close>, in the column order of the INSERT statement.
\<close>

record row =
  col_repo_id :: pyval
  col_issue_id :: pyval
  col_title :: pyval
  col_description :: pyval
  col_version :: pyval
  col_steps_to_reproduce :: pyval
  col_severity :: pyval
  col_stack_trace :: pyval
  col_url :: pyval
  col_created_at :: pyval
  col_record_at :: nat

text \<open>
  The database the client talks to: the rows of \<open>standardized_defect\<close> with their
  generated identifiers, the last identifier handed out, the rows of \<open>token_config\<close>
  (platform, is\_active, token), and whether the server accepts connections.
\<close>

record store =
  defects :: "(nat \<times> row) list"
  last_id :: nat
  token_config :: "(string \<times> bool \<times> string) list"
  server_up :: bool

definition has_key :: "store \<Rightarrow> pyval \<Rightarrow> pyval \<Rightarrow> bool" where
  "has_key st repo issue =
     list_ex (\<lambda>(i, r). col_repo_id r = repo \<and> col_issue_id r = issue) (defects st)"

text \<open>
  Modelled from the spec: the declaration of table \<open>standardized_defect\<close> is not part of
  the sources; the spec gives it a uniqueness constraint over (repository\_id, issue\_id), and
  the code reads a generated identifier (\<open>lastrowid\<close>) after the insert. \<open>INSERT IGNORE\<close>
  affects no row when the key is already stored. The result is (rowcount, lastrowid, store).
\<close>

definition insert_ignore :: "row \<Rightarrow> store \<Rightarrow> nat \<times> nat \<times> store" where
  "insert_ignore r st =
     (if has_key st (col_repo_id r) (col_issue_id r) then (0, 0, st)
      else (let i = Suc (last_id st)
            in (1, i, st\<lparr>defects := defects st @ [(i, r)], last_id := i\<rparr>)))"

text \<open>\<open>get_token\<close>: the token of the first active row of the platform, if any.\<close>

definition get_token :: "string \<Rightarrow> store \<Rightarrow> exc + string option" where
  "get_token platform st =
     (if \<not> server_up st then Inl RuntimeError
      else (case filter (\<lambda>(p, active, tok). p = platform \<and> active) (token_config st) of
              [] \<Rightarrow> Inr None
            | (p, active, tok) # rest \<Rightarrow> Inr (Some tok)))"

definition is_duplicate :: "pyval \<Rightarrow> pyval \<Rightarrow> store \<Rightarrow> exc + bool" where
  "is_duplicate repo_id issue_id st =
     (if \<not> (py_truthy repo_id \<and> py_truthy issue_id) then Inr False
      else if \<not> server_up st then Inl RuntimeError
      else Inr (has_key st repo_id issue_id))"

text \<open>The parameter tuple of the INSERT statement; \<open>now\<close> is \<open>datetime.now()\<close>.\<close>

definition insert_params :: "nat \<Rightarrow> pydict \<Rightarrow> row" where
  "insert_params now doc =
     \<lparr> col_repo_id = dict_get doc ''repo_id'',
       col_issue_id = dict_get doc ''issue_id'',
       col_title = dict_get doc ''title'',
       col_description = py_or (dict_get doc ''description'') (PStr []),
       col_version = py_or (dict_get doc ''version'') (PStr []),
       col_steps_to_reproduce =
         py_or (PStr (py_str (dict_get doc ''steps_to_reproduce''))) (PStr []),
       col_severity = py_or (dict_get doc ''severity'') (PStr ''Unknown''),
       col_stack_trace = py_or (dict_get doc ''stack_trace'') (PStr []),
       col_url = py_or (dict_get doc ''url'') (PStr []),
       col_created_at = dict_get doc ''created_at'',
       col_record_at = now \<rparr>"

text \<open>
  \<open>insert_one\<close>. The key check comes before any connection. When the connection cannot be
  opened, \<open>_get_connection\<close> raises inside the \<open>try\<close> before \<open>conn\<close> is bound, and the
  handler's own \<open>if conn\<close> raises \<open>UnboundLocalError\<close>.
\<close>

definition insert_one :: "nat \<Rightarrow> pydict \<Rightarrow> store \<Rightarrow> (exc + nat option) \<times> store" where
  "insert_one now doc st =
     (let repo_id = dict_get doc ''repo_id'';
          issue_id = dict_get doc ''issue_id''
      in if \<not> py_truthy repo_id \<or> \<not> py_truthy issue_id then (Inl ValueError, st)
         else if \<not> server_up st then (Inl UnboundLocalError, st)
         else (case insert_ignore (insert_params now doc) st of
                 (rowcount, lastrowid, st') \<Rightarrow>
                   (Inr (if rowcount > 0 then Some lastrowid else None), st')))"

section \<open>Strings\<close>

text \<open>
  Character classes of Python's \<open>str\<close> methods and of \<open>re\<close> on \<open>str\<close> patterns, on the code
  points U+0000 .. U+00FF: \<open>\s\<close> and \<open>str.strip()\<close> use \<open>py_isspace\<close>, \<open>\w\<close> is
  \<open>is_word\<close> (alphanumeric or underscore), \<open>str.lower()\<close> maps \<open>py_lower\<close> over the text.
\<close>

definition py_isspace :: "char \<Rightarrow> bool" where
  "py_isspace c = (let n = (of_char c :: nat) in
     (9 \<le> n \<and> n \<le> 13) \<or> (28 \<le> n \<and> n \<le> 32) \<or> n = 133 \<or> n = 160)"

definition py_isalnum :: "char \<Rightarrow> bool" where
  "py_isalnum c = (let n = (of_char c :: nat) in
     (48 \<le> n \<and> n \<le> 57) \<or> (65 \<le> n \<and> n \<le> 90) \<or> (97 \<le> n \<and> n \<le> 122) \<or>
     n = 170 \<or> n = 178 \<or> n = 179 \<or> n = 181 \<or> n = 185 \<or> n = 186 \<or>
     (188 \<le> n \<and> n \<le> 190) \<or> (192 \<le> n \<and> n \<noteq> 215 \<and> n \<noteq> 247))"

definition is_word :: "char \<Rightarrow> bool" where
  "is_word c = (py_isalnum c \<or> c = CHR ''_'')"

definition py_lower :: "char \<Rightarrow> char" where
  "py_lower c = (let n = (of_char c :: nat) in
     if (65 \<le> n \<and> n \<le> 90) \<or> (192 \<le> n \<and> n \<le> 222 \<and> n \<noteq> 215)
     then char_of (n + 32) else c)"

definition py_strip :: "string \<Rightarrow> string" where
  "py_strip s = rev (dropWhile py_isspace (rev (dropWhile py_isspace s)))"

text \<open>
  \<open>str.splitlines()\<close>: the text is cut at line feed, carriage return (with a following
  line feed), vertical tab, form feed, the separators U+001C .. U+001E and U+0085; a final
  line break opens no further line. \<open>cur\<close> is the current line, reversed.
\<close>

definition is_linebreak :: "char \<Rightarrow> bool" where
  "is_linebreak c = (let n = (of_char c :: nat) in
     (10 \<le> n \<and> n \<le> 13) \<or> (28 \<le> n \<and> n \<le> 30) \<or> n = 133)"

fun split_acc :: "string \<Rightarrow> string \<Rightarrow> string list" where
  "split_acc cur [] = (if cur = [] then [] else [rev cur])"
| "split_acc cur (c # cs) =
     (if c = CHR 0x0D \<and> cs \<noteq> [] \<and> hd cs = CHR 0x0A then rev cur # split_acc [] (tl cs)
      else if is_linebreak c then rev cur # split_acc [] cs
      else split_acc (c # cur) cs)"

definition splitlines :: "string \<Rightarrow> string list" where
  "splitlines s = split_acc [] s"

section \<open>Text normalisation (preprocessing/clean.py)\<close>

text \<open>
  \<open>normalize_text\<close> is the last stage of cleaning. Its three substitutions:

  \<^item> \<open>([.,!?;:...]){2,}\<close> by group 1: a maximal run of two or more terminal punctuation
    characters is replaced by its last character (the fullwidth members of the class lie
    beyond U+00FF);
  \<^item> \<open>^[^\w\s]+|[^\w\s]+$\<close> by nothing: the run of characters that are neither word nor
    space characters at the start of the text is deleted, and the one at its end, where
    \<open>$\<close> also matches before a final line feed;
  \<^item> \<open>\s+\<close> by one space.
\<close>

definition term_punct :: "char \<Rightarrow> bool" where
  "term_punct c = (c \<in> set ''.,!?;:'')"

fun collapse_punct :: "string \<Rightarrow> string" where
  "collapse_punct (c # d # cs) =
     (if term_punct c \<and> term_punct d then collapse_punct (d # cs)
      else c # collapse_punct (d # cs))"
| "collapse_punct cs = cs"

definition sym :: "char \<Rightarrow> bool" where
  "sym c = (\<not> is_word c \<and> \<not> py_isspace c)"

definition drop_trailing :: "(char \<Rightarrow> bool) \<Rightarrow> string \<Rightarrow> string" where
  "drop_trailing P s = rev (dropWhile P (rev s))"

definition strip_edges :: "string \<Rightarrow> string" where
  "strip_edges s =
     (let s1 = dropWhile sym s
      in if s1 \<noteq> [] \<and> last s1 = CHR 0x0A then drop_trailing sym (butlast s1) @ [CHR 0x0A]
         else drop_trailing sym s1)"

fun collapse_ws :: "string \<Rightarrow> string" where
  "collapse_ws [] = []"
| "collapse_ws [c] = [if py_isspace c then CHR '' '' else c]"
| "collapse_ws (c # d # cs) =
     (if py_isspace c \<and> py_isspace d then collapse_ws (d # cs)
      else (if py_isspace c then CHR '' '' else c) # collapse_ws (d # cs))"

definition normalize_text :: "string \<Rightarrow> string" where
  "normalize_text text =
     (if text = [] then []
      else py_strip (collapse_ws (strip_edges (collapse_punct (map py_lower text)))))"

text \<open>No two neighbours of the text both satisfy \<open>P\<close>.\<close>

fun no_adj :: "('a \<Rightarrow> bool) \<Rightarrow> 'a list \<Rightarrow> bool" where
  "no_adj P (x # y # zs) = (\<not> (P x \<and> P y) \<and> no_adj P (y # zs))"
| "no_adj P xs = True"

text \<open>White space in normal form: single blanks only, never two in a row.\<close>

definition ws_ok :: "string \<Rightarrow> bool" where
  "ws_ok xs = (no_adj py_isspace xs \<and> (\<forall>c \<in> set xs. py_isspace c \<longrightarrow> c = CHR '' ''))"

section \<open>LLM extractor (nlp/extractor\_llm.py)\<close>

definition SCHEMA_KEYS :: "string list" where
  "SCHEMA_KEYS =
     [''title'', ''description'', ''version'', ''severity'', ''steps_to_reproduce'', ''stack_trace'']"

text \<open>
  Modelled from the spec: \<open>DEFAULT_SCHEMA\<close> is imported from nlp/schema.py, which is not
  among the sources. The functions below take it as the argument \<open>dflt\<close>; the spec gives it
  the six keys, a sequence for \<open>steps_to_reproduce\<close> and strings for the other fields.
\<close>

definition default_schema_ok :: "pydict \<Rightarrow> bool" where
  "default_schema_ok d =
     (distinct (map fst d) \<and> set (map fst d) = set SCHEMA_KEYS \<and>
      list_all (\<lambda>(k, v). if k = ''steps_to_reproduce'' then is_list v else is_str v) d)"

text \<open>\<open>d[k] = v\<close>: the value of an existing key is replaced in place, a new key goes last.\<close>

definition dict_set :: "pydict \<Rightarrow> string \<Rightarrow> pyval \<Rightarrow> pydict" where
  "dict_set d k v =
     (if k \<in> set (map fst d) then map (\<lambda>(k', v'). if k' = k then (k', v) else (k', v')) d
      else d @ [(k, v)])"

text \<open>
  One round of the loop of \<open>validate_extraction\<close>, for the key \<open>key\<close> whose value in the
  copied schema is \<open>dv\<close>: the three statements of the loop body in order.
\<close>

definition validate_field :: "pydict \<Rightarrow> string \<Rightarrow> pyval \<Rightarrow> pyval" where
  "validate_field result key dv =
     (let v1 = dict_get_default result key dv;
          v2 = (if is_list v1 \<and> \<not> is_list (dict_get result key)
                then (if py_truthy (dict_get result key)
                      then PList [PStr (py_str (dict_get result key))] else PList [])
                else v1)
      in case v2 of PStr s \<Rightarrow> PStr (py_strip (take 5000 s)) | _ \<Rightarrow> v2)"

text \<open>
  \<open>validate_extraction\<close>. \<open>result\<close> is whatever \<open>json.loads\<close> returned; only a dict has
  \<open>get\<close>, any other value raises \<open>AttributeError\<close> in the first round.
\<close>

definition validate_extraction :: "pyval \<Rightarrow> pydict \<Rightarrow> exc + pydict" where
  "validate_extraction result schema =
     (if schema = [] then Inr []
      else (case result of
              PDict r \<Rightarrow> Inr (map (\<lambda>(key, dv). (key, validate_field r key dv)) schema)
            | _ \<Rightarrow> Inl AttributeError))"

text \<open>
  What \<open>call_llm\<close> gives its caller once its retries are over: the content of the reply, or
  the exception that is raised again. \<open>json_loads\<close> is \<open>json.loads\<close>: \<open>None\<close> stands for
  \<open>JSONDecodeError\<close>.
\<close>

datatype llm_reply = Content string | Raised exc

text \<open>The stripped non-blank lines of a text, as the fallback of \<open>llm_extract\<close> computes them.\<close>

definition nonblank_lines :: "string \<Rightarrow> string list" where
  "nonblank_lines text = filter (\<lambda>l. l \<noteq> []) (map py_strip (splitlines text))"

definition fallback_schema :: "pydict \<Rightarrow> string \<Rightarrow> pydict" where
  "fallback_schema dflt text =
     (let lines = nonblank_lines text
      in if lines \<noteq> []
         then dict_set (dict_set dflt ''title'' (PStr (take 200 (hd lines))))
                ''description'' (PStr (join '' '' (take 4 (drop 1 lines))))
         else dflt)"

text \<open>The body of the \<open>try\<close> block of \<open>llm_extract\<close>.\<close>

definition llm_extract_try ::
  "(string \<Rightarrow> llm_reply) \<Rightarrow> (string \<Rightarrow> pyval option) \<Rightarrow> pydict \<Rightarrow> string \<Rightarrow> bool
     \<Rightarrow> exc + pyval" where
  "llm_extract_try call_llm json_loads dflt text validate =
     (case call_llm text of
        Raised e \<Rightarrow> Inl e
      | Content llm_response \<Rightarrow>
          (case json_loads llm_response of
             None \<Rightarrow> Inl JSONDecodeError
           | Some extracted \<Rightarrow>
               if validate
               then (case validate_extraction extracted dflt of
                       Inl e \<Rightarrow> Inl e
                     | Inr v \<Rightarrow> Inr (PDict v))
               else Inr extracted))"

definition llm_extract ::
  "(string \<Rightarrow> llm_reply) \<Rightarrow> (string \<Rightarrow> pyval option) \<Rightarrow> pydict \<Rightarrow> string \<Rightarrow> bool
     \<Rightarrow> exc + pyval" where
  "llm_extract call_llm json_loads dflt text validate =
     (if text = [] \<or> py_strip text = [] then Inr (PDict dflt)
      else (case llm_extract_try call_llm json_loads dflt text validate of
              Inr extracted \<Rightarrow> Inr extracted
            | Inl JSONDecodeError \<Rightarrow> Inr (PDict (fallback_schema dflt text))
            | Inl e \<Rightarrow> Inr (PDict dflt)))"

text \<open>A default schema for the examples: empty strings and an empty list.\<close>

definition EXAMPLE_SCHEMA :: pydict where
  "EXAMPLE_SCHEMA =
     [(''title'', PStr []), (''description'', PStr []), (''version'', PStr []),
      (''severity'', PStr []), (''steps_to_reproduce'', PList []), (''stack_trace'', PStr [])]"

section \<open>Pipeline (pipeline/pipeline\_runner.py)\<close>

text \<open>
  What the pipeline calls and this theory does not define: the two cleaning stages before
  \<open>normalize_text\<close> (they rest on BeautifulSoup and \<open>unicodedata\<close>), the two rule
  extractors (regular-expression searches), the model call and the JSON parser, and the
  default schema.
\<close>

record pipeline_env =
  e_strip_html_markdown :: "string \<Rightarrow> string"
  e_remove_noise :: "string \<Rightarrow> string"
  e_extract_version :: "string \<Rightarrow> string option"
  e_extract_steps_by_heading :: "string \<Rightarrow> string list"
  e_call_llm :: "string \<Rightarrow> llm_reply"
  e_json_loads :: "string \<Rightarrow> pyval option"
  e_default_schema :: pydict

definition opt_str :: "string option \<Rightarrow> pyval" where
  "opt_str v = (case v of None \<Rightarrow> PNone | Some s \<Rightarrow> PStr s)"

text \<open>
  The first lines of \<open>process_issue\<close>: the body of the issue (\<open>issue.get("body", "") or ""\<close>),
  cleaned by the three stages. A body that is no string cannot be cleaned.
\<close>

definition cleaned_body :: "pipeline_env \<Rightarrow> pydict \<Rightarrow> exc + string" where
  "cleaned_body env issue =
     (case py_or (dict_get_default issue ''body'' (PStr [])) (PStr []) of
        PStr raw \<Rightarrow>
          Inr (normalize_text (e_remove_noise env (e_strip_html_markdown env raw)))
      | _ \<Rightarrow> Inl TypeError)"

text \<open>The dict literal that \<open>process_issue\<close> returns.\<close>

definition merge_results ::
  "pydict \<Rightarrow> string \<Rightarrow> string option \<Rightarrow> string list \<Rightarrow> pydict \<Rightarrow> pydict" where
  "merge_results issue cleaned version steps llm_res =
     [(''platform'', dict_get issue ''platform''),
      (''repo_id'', PStr []),
      (''issue_id'', dict_get issue ''issue_id''),
      (''title'', py_or (dict_get llm_res ''title'') (dict_get issue ''title'')),
      (''description'', py_or (dict_get llm_res ''description'') (PStr (take 2000 cleaned))),
      (''version'', py_or (dict_get llm_res ''version'') (opt_str version)),
      (''steps_to_reproduce'',
         py_or (dict_get llm_res ''steps_to_reproduce'') (PList (map PStr steps))),
      (''severity'', py_or (dict_get llm_res ''severity'') (PStr ''UnKnow'')),
      (''stack_trace'', py_or (dict_get llm_res ''stack_trace'') (PStr [])),
      (''url'', dict_get issue ''url''),
      (''created_at'', dict_get issue ''created_at'')]"

definition process_issue :: "pipeline_env \<Rightarrow> pydict \<Rightarrow> exc + pydict" where
  "process_issue env issue =
     (case cleaned_body env issue of
        Inl e \<Rightarrow> Inl e
      | Inr cleaned \<Rightarrow>
          (let version = e_extract_version env cleaned;
               steps = e_extract_steps_by_heading env cleaned
           in case llm_extract (e_call_llm env) (e_json_loads env) (e_default_schema env)
                     cleaned True of
                Inl e \<Rightarrow> Inl e
              | Inr (PDict llm_res) \<Rightarrow> Inr (merge_results issue cleaned version steps llm_res)
              | Inr _ \<Rightarrow> Inl AttributeError))"

text \<open>An environment for the examples: the cleaning stages leave the text alone, the rules
  find version 1.2.0, and the model's reply is not JSON.\<close>

definition EXAMPLE_ENV :: pipeline_env where
  "EXAMPLE_ENV =
     \<lparr> e_strip_html_markdown = (\<lambda>s. s), e_remove_noise = (\<lambda>s. s),
       e_extract_version = (\<lambda>s. Some ''1.2.0''), e_extract_steps_by_heading = (\<lambda>s. []),
       e_call_llm = (\<lambda>s. Content ''no json''), e_json_loads = (\<lambda>s. None),
       e_default_schema = EXAMPLE_SCHEMA \<rparr>"

section \<open>Collectors (collectors/*.py)\<close>

subsection \<open>Dates, requests and items\<close>

text \<open>
  A \<open>datetime\<close> value is an instant, with or without a time zone; ordering one of each
  kind raises \<open>TypeError\<close>. The parsers and the printer of the \<open>datetime\<close> module are
  parameters: \<open>strptime_ymd s\<close> is \<open>datetime.strptime(s, "%Y-%m-%d").replace(tzinfo=utc)\<close>
  and \<open>fromisoformat\<close> is \<open>datetime.fromisoformat\<close> (\<open>None\<close> for \<open>ValueError\<close>);
  \<open>isoformat\<close> prints an instant of UTC.
\<close>

datatype dt = Aware int | Naive int

record datetime_lib =
  strptime_ymd :: "string \<Rightarrow> int option"
  fromisoformat :: "string \<Rightarrow> dt option"
  isoformat :: "int \<Rightarrow> string"

fun dt_less :: "dt \<Rightarrow> dt \<Rightarrow> exc + bool" where
  "dt_less (Aware a) (Aware b) = Inr (a < b)"
| "dt_less (Naive a) (Naive b) = Inr (a < b)"
| "dt_less a b = Inl TypeError"

text \<open>\<open>s.replace(old, new)\<close> for a non-empty \<open>old\<close>, the only use the program makes of it.\<close>

function py_replace :: "string \<Rightarrow> string \<Rightarrow> string \<Rightarrow> string" where
  "py_replace old new s =
     (if s = [] \<or> old = [] then s
      else if take (length old) s = old then new @ py_replace old new (drop (length old) s)
      else hd s # py_replace old new (tl s))"
  by pat_completeness auto
termination
  by (relation "measure (\<lambda>(old, new, s). length s)") auto

declare py_replace.simps [simp del]

text \<open>
  The answer of the issue tracker to one request: a failure of the request (network, status
  code, body that is not JSON), or the decoded page, a list of JSON objects. The tracker is
  a function from the query parameters of a request to its answer.
\<close>

datatype response = Failed | Page "pydict list"

type_synonym upstream = "pydict \<Rightarrow> response"

text \<open>\<open>"pull_request" in item\<close>\<close>

definition flagged :: "pydict \<Rightarrow> bool" where
  "flagged item = (map_of item ''pull_request'' \<noteq> None)"

text \<open>\<open>datetime.fromisoformat(item["created_at"].replace("Z", "+00:00"))\<close>\<close>

definition created_at_of :: "datetime_lib \<Rightarrow> pydict \<Rightarrow> exc + dt" where
  "created_at_of lib item =
     (case map_of item ''created_at'' of
        None \<Rightarrow> Inl KeyError
      | Some (PStr c) \<Rightarrow>
          (case fromisoformat lib (py_replace ''Z'' ''+00:00'' c) of
             None \<Rightarrow> Inl ValueError
           | Some t \<Rightarrow> Inr t)
      | Some _ \<Rightarrow> Inl AttributeError)"

text \<open>
  The loop over the items of a page: each item is skipped (\<open>continue\<close>), turned into an
  issue that is appended, or raises, which ends the whole call.
\<close>

fun collect :: "('a \<Rightarrow> exc + 'b option) \<Rightarrow> 'a list \<Rightarrow> exc + 'b list" where
  "collect f [] = Inr []"
| "collect f (x # xs) =
     (case f x of
        Inl e \<Rightarrow> Inl e
      | Inr None \<Rightarrow> collect f xs
      | Inr (Some y) \<Rightarrow> (case collect f xs of Inl e \<Rightarrow> Inl e | Inr ys \<Rightarrow> Inr (y # ys)))"

subsection \<open>GitHub\<close>

definition github_params :: "datetime_lib \<Rightarrow> string \<Rightarrow> int \<Rightarrow> string option \<Rightarrow> pydict" where
  "github_params lib state per_page since =
     [(''state'', PStr state), (''per_page'', PInt per_page),
      (''sort'', PStr ''created''), (''direction'', PStr ''asc'')] @
     (case since of
        None \<Rightarrow> []
      | Some s \<Rightarrow>
          if s = [] then []
          else [(''since'', PStr (case strptime_ymd lib s of
                                     Some t \<Rightarrow> isoformat lib t
                                   | None \<Rightarrow> s))])"

definition github_issue :: "pydict \<Rightarrow> pydict" where
  "github_issue item =
     [(''platform'', PStr ''github''),
      (''issue_id'', dict_get item ''number''),
      (''title'', dict_get item ''title''),
      (''body'', py_or (dict_get item ''body'') (PStr [])),
      (''created_at'', dict_get item ''created_at''),
      (''url'', dict_get item ''html_url'')]"

definition github_item :: "datetime_lib \<Rightarrow> string option \<Rightarrow> pydict \<Rightarrow> exc + pydict option" where
  "github_item lib until item =
     (if flagged item then Inr None
      else (case created_at_of lib item of
              Inl e \<Rightarrow> Inl e
            | Inr issue_created_at \<Rightarrow>
                (case until of
                   None \<Rightarrow> Inr (Some (github_issue item))
                 | Some u \<Rightarrow>
                     if u = [] then Inr (Some (github_issue item))
                     else (case strptime_ymd lib u of
                             None \<Rightarrow> Inl ValueError
                           | Some until_dt \<Rightarrow>
                               (case dt_less (Aware until_dt) issue_created_at of
                                  Inl e \<Rightarrow> Inl e
                                | Inr later \<Rightarrow>
                                    if later then Inr None
                                    else Inr (Some (github_issue item)))))))"

text \<open>\<open>GithubCollector.fetch_recent\<close>: one request, then the loop over its items.\<close>

definition github_fetch_recent ::
  "datetime_lib \<Rightarrow> upstream \<Rightarrow> pyval \<Rightarrow> pyval \<Rightarrow> string \<Rightarrow> int \<Rightarrow> string option
     \<Rightarrow> string option \<Rightarrow> exc + pydict list" where
  "github_fetch_recent lib api owner repo state per_page since until =
     (if \<not> (py_truthy owner \<and> py_truthy repo) then Inl ValueError
      else (case api (github_params lib state per_page since) of
              Failed \<Rightarrow> Inl RuntimeError
            | Page issues_list \<Rightarrow> collect (github_item lib until) issues_list))"

subsection \<open>Gitee\<close>

definition gitee_params :: "string \<Rightarrow> int \<Rightarrow> int \<Rightarrow> pydict" where
  "gitee_params state per_page page =
     [(''state'', PStr state), (''per_page'', PInt per_page), (''page'', PInt page),
      (''sort'', PStr ''created''), (''direction'', PStr ''asc'')]"

definition gitee_issue :: "pydict \<Rightarrow> pydict" where
  "gitee_issue item =
     [(''platform'', PStr ''gitee''),
      (''issue_id'', dict_get item ''number''),
      (''title'', dict_get item ''title''),
      (''body'', py_or (dict_get item ''body'') (PStr [])),
      (''created_at'', dict_get item ''created_at''),
      (''updated_at'', dict_get item ''updated_at''),
      (''state'', dict_get item ''state''),
      (''url'', dict_get item ''html_url'')]"

text \<open>
  A bound of the time window as Gitee reads it: a calendar date (midnight UTC), or else an
  ISO timestamp; \<open>None\<close> when neither parser accepts the text (\<open>ValueError\<close>).
\<close>

definition parse_bound :: "datetime_lib \<Rightarrow> string \<Rightarrow> dt option" where
  "parse_bound lib s =
     (case strptime_ymd lib s of
        Some t \<Rightarrow> Some (Aware t)
      | None \<Rightarrow> fromisoformat lib (py_replace ''Z'' ''+00:00'' s))"

text \<open>The \<open>since\<close> test of the loop body: \<open>Inr True\<close> means \<open>continue\<close>.\<close>

definition before_since :: "datetime_lib \<Rightarrow> string option \<Rightarrow> dt \<Rightarrow> exc + bool" where
  "before_since lib since issue_created_at =
     (case since of
        None \<Rightarrow> Inr False
      | Some s \<Rightarrow>
          if s = [] then Inr False
          else (case parse_bound lib s of
                  None \<Rightarrow> Inl ValueError
                | Some since_dt \<Rightarrow> dt_less issue_created_at since_dt))"

definition after_until :: "datetime_lib \<Rightarrow> string option \<Rightarrow> dt \<Rightarrow> exc + bool" where
  "after_until lib until issue_created_at =
     (case until of
        None \<Rightarrow> Inr False
      | Some u \<Rightarrow>
          if u = [] then Inr False
          else (case parse_bound lib u of
                  None \<Rightarrow> Inl ValueError
                | Some until_dt \<Rightarrow> dt_less until_dt issue_created_at))"

definition gitee_item ::
  "datetime_lib \<Rightarrow> string option \<Rightarrow> string option \<Rightarrow> pydict \<Rightarrow> exc + pydict option" where
  "gitee_item lib since until item =
     (if flagged item then Inr None
      else (case created_at_of lib item of
              Inl e \<Rightarrow> Inl e
            | Inr issue_created_at \<Rightarrow>
                (case before_since lib since issue_created_at of
                   Inl e \<Rightarrow> Inl e
                 | Inr True \<Rightarrow> Inr None
                 | Inr False \<Rightarrow>
                     (case after_until lib until issue_created_at of
                        Inl e \<Rightarrow> Inl e
                      | Inr True \<Rightarrow> Inr None
                      | Inr False \<Rightarrow> Inr (Some (gitee_issue item))))))"

text \<open>
  The \<open>while True\<close> loop of \<open>GiteeCollector.fetch_recent\<close>, from page \<open>page\<close> on with the
  issues gathered so far. The loop need not end (a tracker may answer every page with
  items): \<open>fuel\<close> bounds the number of requests, and \<open>None\<close> means it ran out.
\<close>

fun gitee_pages ::
  "nat \<Rightarrow> datetime_lib \<Rightarrow> upstream \<Rightarrow> string \<Rightarrow> int \<Rightarrow> string option \<Rightarrow> string option
     \<Rightarrow> int \<Rightarrow> pydict list \<Rightarrow> (exc + pydict list) option" where
  "gitee_pages 0 lib api state per_page since until page all_issues = None"
| "gitee_pages (Suc fuel) lib api state per_page since until page all_issues =
     (case api (gitee_params state per_page page) of
        Failed \<Rightarrow> Some (Inl RuntimeError)
      | Page issues_list \<Rightarrow>
          if issues_list = [] then Some (Inr all_issues)
          else (case collect (gitee_item lib since until) issues_list of
                  Inl e \<Rightarrow> Some (Inl e)
                | Inr new \<Rightarrow>
                    gitee_pages fuel lib api state per_page since until (page + 1)
                      (all_issues @ new)))"

definition gitee_fetch_recent ::
  "nat \<Rightarrow> datetime_lib \<Rightarrow> upstream \<Rightarrow> pyval \<Rightarrow> pyval \<Rightarrow> string \<Rightarrow> int \<Rightarrow> string option
     \<Rightarrow> string option \<Rightarrow> (exc + pydict list) option" where
  "gitee_fetch_recent fuel lib api owner repo state per_page since until =
     (if \<not> (py_truthy owner \<and> py_truthy repo) then Some (Inl ValueError)
      else gitee_pages fuel lib api state per_page since until 1 [])"

subsection \<open>GitLab\<close>

text \<open>
  The query parameters of GitLab; \<open>until\<close> must be a calendar date here, any other text
  raises \<open>ValueError\<close> before the first request.
\<close>

definition gitlab_params ::
  "datetime_lib \<Rightarrow> string \<Rightarrow> int \<Rightarrow> string option \<Rightarrow> string option \<Rightarrow> int \<Rightarrow> exc + pydict" where
  "gitlab_params lib state per_page since until page =
     (let base = [(''state'', PStr state), (''per_page'', PInt (min per_page 100)),
                  (''order_by'', PStr ''created_at''), (''sort'', PStr ''asc''),
                  (''page'', PInt page)];
          after = (case since of
                     None \<Rightarrow> []
                   | Some s \<Rightarrow>
                       if s = [] then []
                       else [(''created_after'',
                              PStr (case strptime_ymd lib s of
                                      Some t \<Rightarrow> py_replace ''+00:00'' ''Z'' (isoformat lib t)
                                    | None \<Rightarrow> py_replace ''+00:00'' ''Z'' s))])
      in case until of
           None \<Rightarrow> Inr (base @ after)
         | Some u \<Rightarrow>
             if u = [] then Inr (base @ after)
             else (case strptime_ymd lib u of
                     None \<Rightarrow> Inl ValueError
                   | Some t \<Rightarrow>
                       Inr (base @ after @
                            [(''created_before'',
                              PStr (py_replace ''+00:00'' ''Z'' (isoformat lib t)))])))"

definition gitlab_issue :: "pyval \<Rightarrow> pyval \<Rightarrow> pydict \<Rightarrow> pydict" where
  "gitlab_issue owner repo item =
     [(''platform'', PStr ''gitlab''),
      (''issue_id'', dict_get item ''iid''),
      (''global_id'', dict_get item ''id''),
      (''title'', dict_get item ''title''),
      (''body'', py_or (dict_get item ''description'') (PStr [])),
      (''created_at'', dict_get item ''created_at''),
      (''updated_at'', dict_get item ''updated_at''),
      (''state'', dict_get item ''state''),
      (''url'', dict_get item ''web_url''),
      (''owner'', owner),
      (''repo'', repo)]"

text \<open>The creation time is parsed (and may raise) but the value is not used.\<close>

definition gitlab_item :: "datetime_lib \<Rightarrow> pyval \<Rightarrow> pyval \<Rightarrow> pydict \<Rightarrow> exc + pydict option" where
  "gitlab_item lib owner repo item =
     (case created_at_of lib item of
        Inl e \<Rightarrow> Inl e
      | Inr issue_created_at \<Rightarrow> Inr (Some (gitlab_issue owner repo item)))"

fun gitlab_pages ::
  "nat \<Rightarrow> datetime_lib \<Rightarrow> upstream \<Rightarrow> pyval \<Rightarrow> pyval \<Rightarrow> string \<Rightarrow> int \<Rightarrow> string option
     \<Rightarrow> string option \<Rightarrow> int \<Rightarrow> pydict list \<Rightarrow> (exc + pydict list) option" where
  "gitlab_pages 0 lib api owner repo state per_page since until page all_issues = None"
| "gitlab_pages (Suc fuel) lib api owner repo state per_page since until page all_issues =
     (case gitlab_params lib state per_page since until page of
        Inl e \<Rightarrow> Some (Inl e)
      | Inr params \<Rightarrow>
          (case api params of
             Failed \<Rightarrow> Some (Inl RuntimeError)
           | Page page_issues \<Rightarrow>
               if page_issues = [] then Some (Inr all_issues)
               else (case collect (gitlab_item lib owner repo) page_issues of
                       Inl e \<Rightarrow> Some (Inl e)
                     | Inr new \<Rightarrow>
                         gitlab_pages fuel lib api owner repo state per_page since until
                           (page + 1) (all_issues @ new))))"

text \<open>
  \<open>GitLabCollector.fetch_recent\<close>. The project path is the quoted \<open>owner/repo\<close> when both
  are given, else \<open>project_id\<close>; without any of them the call is refused.
\<close>

definition gitlab_fetch_recent ::
  "nat \<Rightarrow> datetime_lib \<Rightarrow> upstream \<Rightarrow> pyval \<Rightarrow> pyval \<Rightarrow> pyval \<Rightarrow> string \<Rightarrow> int
     \<Rightarrow> string option \<Rightarrow> string option \<Rightarrow> (exc + pydict list) option" where
  "gitlab_fetch_recent fuel lib api owner repo project_id state per_page since until =
     (if \<not> ((py_truthy owner \<and> py_truthy repo) \<or> py_truthy project_id)
      then Some (Inl ValueError)
      else (case gitlab_params lib state per_page since until 1 of
              Inl e \<Rightarrow> Some (Inl e)
            | Inr params \<Rightarrow>
                gitlab_pages fuel lib api owner repo state per_page since until 1 []))"

subsection \<open>Examples\<close>

text \<open>
  A small \<open>datetime\<close> library for the examples: instants are days counted from 2024-01-01,
  and it knows three dates.
\<close>

definition EXAMPLE_LIB :: datetime_lib where
  "EXAMPLE_LIB =
     \<lparr> strptime_ymd = (\<lambda>s. if s = ''2024-01-01'' then Some 0
                            else if s = ''2024-06-01'' then Some 152 else None),
       fromisoformat = (\<lambda>s. if s = ''2023-05-01T00:00:00+00:00'' then Some (Aware (-245))
                             else if s = ''2024-03-01T00:00:00+00:00'' then Some (Aware 60)
                             else if s = ''2024-09-01T00:00:00+00:00'' then Some (Aware 244)
                             else None),
       isoformat = (\<lambda>t. if t = 0 then ''2024-01-01T00:00:00+00:00''
                         else ''2024-06-01T00:00:00+00:00'') \<rparr>"

definition item_of :: "int \<Rightarrow> string \<Rightarrow> pydict" where
  "item_of n created =
     [(''number'', PInt n), (''iid'', PInt n), (''title'', PStr ''t''),
      (''created_at'', PStr created)]"

text \<open>A tracker with two pages of one issue each; a request without page number gets the
  first page.\<close>

definition TWO_PAGES :: upstream where
  "TWO_PAGES params =
     (case map_of params ''page'' of
        None \<Rightarrow> Page [item_of 1 ''2024-03-01T00:00:00Z'']
      | Some p \<Rightarrow>
          if p = PInt 1 then Page [item_of 1 ''2024-03-01T00:00:00Z'']
          else if p = PInt 2 then Page [item_of 2 ''2024-03-01T00:00:00Z'']
          else Page [])"

subsection \<open>The time window of a returned issue\<close>

text \<open>\<open>a \<le> b\<close> on \<open>datetime\<close> values that can be compared.\<close>

fun dt_le :: "dt \<Rightarrow> dt \<Rightarrow> bool" where
  "dt_le (Aware a) (Aware b) = (a \<le> b)"
| "dt_le (Naive a) (Naive b) = (a \<le> b)"
| "dt_le a b = False"

text \<open>The creation time of a returned issue, read from its \<open>created_at\<close> field.\<close>

definition issue_created :: "datetime_lib \<Rightarrow> pydict \<Rightarrow> dt option" where
  "issue_created lib issue =
     (case dict_get issue ''created_at'' of
        PStr c \<Rightarrow> fromisoformat lib (py_replace ''Z'' ''+00:00'' c)
      | _ \<Rightarrow> None)"

text \<open>
  \<open>since \<le> created_at\<close> and \<open>created_at \<le> until\<close> for a bound that was supplied; the bound
  is read as \<open>parse\<close> reads it.
\<close>

definition since_holds :: "(string \<Rightarrow> dt option) \<Rightarrow> string option \<Rightarrow> dt \<Rightarrow> bool" where
  "since_holds parse since t =
     (case since of
        None \<Rightarrow> True
      | Some s \<Rightarrow> s = [] \<or> (case parse s of None \<Rightarrow> False | Some since_dt \<Rightarrow> dt_le since_dt t))"

definition until_holds :: "(string \<Rightarrow> dt option) \<Rightarrow> string option \<Rightarrow> dt \<Rightarrow> bool" where
  "until_holds parse until t =
     (case until of
        None \<Rightarrow> True
      | Some u \<Rightarrow> u = [] \<or> (case parse u of None \<Rightarrow> False | Some until_dt \<Rightarrow> dt_le t until_dt))"

text \<open>An upper bound as GitHub reads it: a calendar date only.\<close>

definition parse_ymd :: "datetime_lib \<Rightarrow> string \<Rightarrow> dt option" where
  "parse_ymd lib s = map_option Aware (strptime_ymd lib s)"

text \<open>The same tracker cut down to its first page.\<close>

definition ONE_PAGE :: upstream where
  "ONE_PAGE params =
     (case map_of params ''page'' of
        None \<Rightarrow> Page [item_of 1 ''2024-03-01T00:00:00Z'']
      | Some p \<Rightarrow>
          if p = PInt 1 then Page [item_of 1 ''2024-03-01T00:00:00Z''] else Page [])"

text \<open>
  A tracker that pays no attention to the query: its only page holds an issue created
  before the window, one created after it, and one that carries the pull request flag.
\<close>

definition CARELESS :: upstream where
  "CARELESS params =
     (case map_of params ''page'' of
        None \<Rightarrow> Page [item_of 1 ''2023-05-01T00:00:00Z'', item_of 2 ''2024-09-01T00:00:00Z'',
                        (''pull_request'', PDict []) # item_of 3 ''2024-03-01T00:00:00Z'']
      | Some p \<Rightarrow>
          if p = PInt 1
          then Page [item_of 1 ''2023-05-01T00:00:00Z'', item_of 2 ''2024-09-01T00:00:00Z'',
                     (''pull_request'', PDict []) # item_of 3 ''2024-03-01T00:00:00Z'']
          else Page [])"

section \<open>The run (pipeline/pipeline\_runner.py)\<close>

text \<open>
  The loop of \<open>run_once\<close> over the fetched issues, with the store and the counter \<open>num\<close>
  passed along. \<open>now\<close> is the reading of the clock that \<open>insert_one\<close> takes.
\<close>

fun run_issues ::
  "pipeline_env \<Rightarrow> nat \<Rightarrow> pyval \<Rightarrow> pydict list \<Rightarrow> store \<Rightarrow> int \<Rightarrow> (exc + int) \<times> store" where
  "run_issues env now repo_id [] st num = (Inr num, st)"
| "run_issues env now repo_id (issue # issues) st num =
     (case is_duplicate repo_id (dict_get issue ''issue_id'') st of
        Inl e \<Rightarrow> (Inl e, st)
      | Inr True \<Rightarrow> run_issues env now repo_id issues st num
      | Inr False \<Rightarrow>
          (case process_issue env issue of
             Inl e \<Rightarrow> (Inl e, st)
           | Inr doc \<Rightarrow>
               (case insert_one now (dict_set doc ''repo_id'' repo_id) st of
                  (Inl e, st') \<Rightarrow> (Inl e, st')
                | (Inr None, st') \<Rightarrow> run_issues env now repo_id issues st' num
                | (Inr (Some i), st') \<Rightarrow> run_issues env now repo_id issues st' (num + 1))))"

text \<open>What follows the \<open>match\<close> statement of \<open>run_once\<close>, given the outcome of \<open>fetch_recent\<close>.\<close>

definition run_fetched ::
  "pipeline_env \<Rightarrow> nat \<Rightarrow> pyval \<Rightarrow> store \<Rightarrow> (exc + pydict list) option
     \<Rightarrow> ((exc + pyval) \<times> store) option" where
  "run_fetched env now repo_id st fetched =
     (case fetched of
        None \<Rightarrow> None
      | Some (Inl e) \<Rightarrow> Some (Inl e, st)
      | Some (Inr issues) \<Rightarrow>
          (case run_issues env now repo_id issues st 0 of
             (Inl e, st') \<Rightarrow> Some (Inl e, st')
           | (Inr num, st') \<Rightarrow> Some (Inr (PInt num), st')))"

text \<open>
  \<open>run_once\<close>. The token read from the store goes into the HTTP session of the collector,
  which is part of the tracker here; the Gitee branch also prints it, which raises
  \<open>TypeError\<close> when there is none. \<open>fetch_recent\<close> is called with \<open>per_page=100\<close> and its own
  default \<open>state\<close>. A platform tag that matches no case ends the call with \<open>None\<close>.
\<close>

definition run_once ::
  "nat \<Rightarrow> pipeline_env \<Rightarrow> datetime_lib \<Rightarrow> upstream \<Rightarrow> nat \<Rightarrow> pyval \<Rightarrow> pyval \<Rightarrow> string option
     \<Rightarrow> string option \<Rightarrow> pyval \<Rightarrow> string \<Rightarrow> pyval \<Rightarrow> store \<Rightarrow> ((exc + pyval) \<times> store) option" where
  "run_once fuel env lib api now owner repo since until platform state repo_id st =
     (if platform = PStr ''github'' then
        (case get_token ''github'' st of
           Inl e \<Rightarrow> Some (Inl e, st)
         | Inr token \<Rightarrow>
             run_fetched env now repo_id st
               (Some (github_fetch_recent lib api owner repo ''open'' 100 since until)))
      else if platform = PStr ''gitee'' then
        (case get_token ''gitee'' st of
           Inl e \<Rightarrow> Some (Inl e, st)
         | Inr None \<Rightarrow> Some (Inl TypeError, st)
         | Inr (Some token) \<Rightarrow>
             run_fetched env now repo_id st
               (gitee_fetch_recent fuel lib api owner repo ''open'' 100 since until))
      else if platform = PStr ''gitlab'' then
        (case get_token ''gitlab'' st of
           Inl e \<Rightarrow> Some (Inl e, st)
         | Inr token \<Rightarrow>
             run_fetched env now repo_id st
               (gitlab_fetch_recent fuel lib api owner repo PNone ''opened'' 100 since until))
      else Some (Inr PNone, st))"

text \<open>A store for the examples: no defect yet, a token for Gitee.\<close>

definition EXAMPLE_STORE :: store where
  "EXAMPLE_STORE =
     \<lparr> defects = [], last_id = 0, token_config = [(''gitee'', True, ''secret'')],
       server_up = True \<rparr>"

text \<open>The platform tags that \<open>run_once\<close> has a case for.\<close>

definition known_platform :: "pyval \<Rightarrow> bool" where
  "known_platform p = (p = PStr ''github'' \<or> p = PStr ''gitee'' \<or> p = PStr ''gitlab'')"

section \<open>Properties of the storage gateway\<close>


lemma insert_params_key:
  "col_repo_id (insert_params now doc) = dict_get doc ''repo_id''"
  "col_issue_id (insert_params now doc) = dict_get doc ''issue_id''"
  by (simp_all add: insert_params_def)






lemma steps_param:
  "col_steps_to_reproduce (insert_params now doc) =
     PStr (py_str (dict_get doc ''steps_to_reproduce''))"
  by (simp add: insert_params_def py_or_def)

text \<open>
  C10. The \<open>steps_to_reproduce\<close> column of a row that \<open>insert_one\<close> stores is \<open>str()\<close> of
  the record's \<open>steps_to_reproduce\<close> field; when the field is absent or \<open>None\<close> the column
  holds the text \<open>None\<close>, which is not empty, so the empty-string fallback is not taken.
\<close>

theorem insert_one_steps_column:
  assumes "insert_one now doc st = (Inr (Some i), st')"
  shows "\<exists>r. (i, r) \<in> set (defects st') \<and>
             col_steps_to_reproduce r = PStr (py_str (dict_get doc ''steps_to_reproduce'')) \<and>
             (map_of doc ''steps_to_reproduce'' = None \<or>
              map_of doc ''steps_to_reproduce'' = Some PNone \<longrightarrow>
                col_steps_to_reproduce r = PStr ''None'' \<and> col_steps_to_reproduce r \<noteq> PStr [])"
proof -
  let ?r = "insert_params now doc"
  from assms have st': "st' = st\<lparr>defects := defects st @ [(Suc (last_id st), ?r)],
                                 last_id := Suc (last_id st)\<rparr>"
    and i: "i = Suc (last_id st)"
    by (auto simp: insert_one_def insert_ignore_def Let_def split: if_splits)
  have mem: "(i, ?r) \<in> set (defects st')"
    by (simp add: st' i)
  have none: "map_of doc ''steps_to_reproduce'' = None \<or>
              map_of doc ''steps_to_reproduce'' = Some PNone \<Longrightarrow>
                py_str (dict_get doc ''steps_to_reproduce'') = ''None''"
    by (auto simp: dict_get_def dict_get_default_def py_str_def)
  show ?thesis
    using mem none by (intro exI [of _ ?r]) (auto simp: steps_param)
qed

theorem insert_one_steps_column_witness:
  "insert_one 5 [(''repo_id'', PStr ''1123''), (''issue_id'', PInt 7)]
     \<lparr>defects = [], last_id = 0, token_config = [], server_up = True\<rparr>
   = (Inr (Some 1),
      \<lparr>defects = [(1, insert_params 5 [(''repo_id'', PStr ''1123''), (''issue_id'', PInt 7)])],
        last_id = 1, token_config = [], server_up = True\<rparr>)
   \<and> col_steps_to_reproduce (insert_params 5 [(''repo_id'', PStr ''1123''), (''issue_id'', PInt 7)])
       = PStr ''None''"
proof -
  have run: "insert_one 5 [(''repo_id'', PStr ''1123''), (''issue_id'', PInt 7)]
     \<lparr>defects = [], last_id = 0, token_config = [], server_up = True\<rparr>
   = (Inr (Some 1),
      \<lparr>defects = [(1, insert_params 5 [(''repo_id'', PStr ''1123''), (''issue_id'', PInt 7)])],
        last_id = 1, token_config = [], server_up = True\<rparr>)"
    by (simp add: insert_one_def insert_ignore_def insert_params_key has_key_def
        dict_get_def dict_get_default_def Let_def)
  from insert_one_steps_column [OF run] show ?thesis
    using run by auto
qed

section \<open>Properties of text normalisation\<close>

lemma py_lower_idem: "py_lower (py_lower c) = py_lower c"
proof -
  let ?n = "of_char c :: nat"
  show ?thesis
  proof (cases "(65 \<le> ?n \<and> ?n \<le> 90) \<or> (192 \<le> ?n \<and> ?n \<le> 222 \<and> ?n \<noteq> 215)")
    case True
    then have 1: "py_lower c = char_of (?n + 32)" by (simp add: py_lower_def Let_def)
    have 2: "(of_char (char_of (?n + 32) :: char) :: nat) = ?n + 32"
      using True by (auto simp: of_char_of)
    show ?thesis unfolding 1 using True 2 by (auto simp: py_lower_def [of "char_of (?n + 32)"] Let_def)
  next
    case False
    then show ?thesis by (auto simp: py_lower_def Let_def)
  qed
qed

lemma py_lower_space: "py_lower (CHR '' '') = CHR '' ''"
  by (simp add: py_lower_def)

lemma space_isspace: "py_isspace (CHR '' '')"
  by (simp add: py_isspace_def)

lemma newline_isspace: "py_isspace (CHR 0x0A)"
  by (simp add: py_isspace_def)

lemma punct_not_space: "term_punct c \<Longrightarrow> \<not> py_isspace c"
  by (auto simp: term_punct_def py_isspace_def)

lemma word_not_space: "is_word c \<Longrightarrow> \<not> py_isspace c"
  by (auto simp: is_word_def py_isalnum_def py_isspace_def Let_def)

subsection \<open>Characters of the results\<close>

lemma set_collapse_punct: "set (collapse_punct xs) \<subseteq> set xs"
  by (induction xs rule: collapse_punct.induct) auto

lemma set_drop_trailing: "set (drop_trailing P xs) \<subseteq> set xs"
  using set_dropWhileD [of _ P "rev xs"] by (auto simp: drop_trailing_def)

lemma set_strip_edges: "set (strip_edges xs) \<subseteq> set xs"
proof -
  let ?s1 = "dropWhile sym xs"
  have 1: "set ?s1 \<subseteq> set xs" by (auto dest: set_dropWhileD)
  show ?thesis
  proof (cases "?s1 \<noteq> [] \<and> last ?s1 = CHR 0x0A")
    case True
    then have "CHR 0x0A \<in> set ?s1" using last_in_set by metis
    moreover have "set (butlast ?s1) \<subseteq> set ?s1" by (auto dest: in_set_butlastD)
    ultimately show ?thesis
      using True 1 set_drop_trailing [of sym "butlast ?s1"] by (auto simp: strip_edges_def Let_def)
  next
    case False
    then show ?thesis using 1 set_drop_trailing [of sym ?s1]
      by (auto simp: strip_edges_def Let_def)
  qed
qed

lemma set_collapse_ws: "set (collapse_ws xs) \<subseteq> insert (CHR '' '') (set xs)"
  by (induction xs rule: collapse_ws.induct) auto

lemma set_py_strip: "set (py_strip xs) \<subseteq> set xs"
  using set_drop_trailing [of py_isspace "dropWhile py_isspace xs"]
  by (auto simp: py_strip_def drop_trailing_def dest: set_dropWhileD)

lemma lower_fixed_normalize: "map py_lower (normalize_text s) = normalize_text s"
proof (cases "s = []")
  case True
  then show ?thesis by (simp add: normalize_text_def)
next
  case False
  let ?l = "map py_lower s"
  have "set (normalize_text s) \<subseteq> insert (CHR '' '') (set ?l)"
    using set_py_strip [of "collapse_ws (strip_edges (collapse_punct ?l))"]
      set_collapse_ws [of "strip_edges (collapse_punct ?l)"]
      set_strip_edges [of "collapse_punct ?l"] set_collapse_punct [of ?l] False
    unfolding normalize_text_def by (simp only: if_False) blast
  then have "\<forall>c \<in> set (normalize_text s). py_lower c = c"
    by (auto simp: py_lower_idem py_lower_space)
  then show ?thesis by (simp add: map_idI)
qed

subsection \<open>Neighbours\<close>

lemma no_adj_Cons: "no_adj P (x # xs) \<Longrightarrow> no_adj P xs"
  by (cases xs) auto

lemma no_adj_append_left: "no_adj P (xs @ ys) \<Longrightarrow> no_adj P xs"
  by (induction P xs rule: no_adj.induct) auto

lemma no_adj_append_right: "no_adj P (xs @ ys) \<Longrightarrow> no_adj P ys"
  by (induction xs) (auto dest: no_adj_Cons)

lemma no_adj_snoc: "no_adj P xs \<Longrightarrow> \<not> P c \<Longrightarrow> no_adj P (xs @ [c])"
  by (induction P xs rule: no_adj.induct) auto

lemma no_adj_dropWhile: "no_adj P xs \<Longrightarrow> no_adj P (dropWhile Q xs)"
  using no_adj_append_right [of P "takeWhile Q xs" "dropWhile Q xs"] by simp

lemma drop_trailing_split: "drop_trailing Q xs @ rev (takeWhile Q (rev xs)) = xs"
proof -
  have "rev (takeWhile Q (rev xs) @ dropWhile Q (rev xs)) = xs" by simp
  then show ?thesis unfolding drop_trailing_def rev_append .
qed

lemma no_adj_drop_trailing: "no_adj P xs \<Longrightarrow> no_adj P (drop_trailing Q xs)"
  using no_adj_append_left [of P "drop_trailing Q xs" "rev (takeWhile Q (rev xs))"]
  by (simp add: drop_trailing_split)

lemma no_adj_butlast: "no_adj P xs \<Longrightarrow> no_adj P (butlast xs)"
proof (cases "xs = []")
  case False
  assume "no_adj P xs"
  then have "no_adj P (butlast xs @ [last xs])" using False by simp
  then show ?thesis by (rule no_adj_append_left)
qed simp

lemma no_adj_py_strip: "no_adj P xs \<Longrightarrow> no_adj P (py_strip xs)"
  using no_adj_drop_trailing [of P "dropWhile py_isspace xs" py_isspace]
  by (simp add: py_strip_def drop_trailing_def no_adj_dropWhile)

lemma no_adj_strip_edges:
  assumes "no_adj P xs" and "\<not> P (CHR 0x0A)"
  shows "no_adj P (strip_edges xs)"
proof -
  let ?s1 = "dropWhile sym xs"
  have 1: "no_adj P ?s1" using assms(1) by (rule no_adj_dropWhile)
  show ?thesis
    using 1 assms(2)
    by (auto simp: strip_edges_def Let_def intro!: no_adj_snoc no_adj_drop_trailing no_adj_butlast)
qed

lemma collapse_ws_Cons:
  "\<exists>r. collapse_ws (d # cs) = (if py_isspace d then CHR '' '' else d) # r"
proof (induction cs arbitrary: d)
  case (Cons a cs)
  show ?case using Cons [of a] by (cases "py_isspace d \<and> py_isspace a") auto
qed simp

lemma no_adj_collapse_ws:
  assumes "\<And>c. py_isspace c \<Longrightarrow> \<not> P c"
  shows "no_adj P xs \<Longrightarrow> no_adj P (collapse_ws xs)"
proof (induction xs rule: collapse_ws.induct)
  case (3 c d cs)
  obtain r where r: "collapse_ws (d # cs) = (if py_isspace d then CHR '' '' else d) # r"
    using collapse_ws_Cons by blast
  have ih: "no_adj P (collapse_ws (d # cs))" using 3 by auto
  show ?case
  proof (cases "py_isspace c \<and> py_isspace d")
    case True
    then show ?thesis using ih by simp
  next
    case False
    have "\<not> (P (if py_isspace c then CHR '' '' else c) \<and> P (if py_isspace d then CHR '' '' else d))"
      using "3.prems" assms space_isspace by auto
    then show ?thesis using False ih r by auto
  qed
qed auto

lemma no_adj_ConsI: "\<not> P c \<Longrightarrow> no_adj P xs \<Longrightarrow> no_adj P (c # xs)"
  by (cases xs) auto

lemma collapse_punct_keep: "\<not> term_punct d \<Longrightarrow> collapse_punct (d # cs) = d # collapse_punct cs"
  by (cases cs) auto

lemma no_adj_collapse_punct: "no_adj term_punct (collapse_punct xs)"
proof (induction xs rule: collapse_punct.induct)
  case (1 c d cs)
  show ?case
  proof (cases "term_punct c \<and> term_punct d")
    case True
    then show ?thesis using 1 by simp
  next
    case False
    show ?thesis
    proof (cases "term_punct d")
      case True
      then have nc: "\<not> term_punct c" using False by simp
      have "collapse_punct (c # d # cs) = c # collapse_punct (d # cs)" using nc by simp
      then show ?thesis using 1 False nc by (simp add: no_adj_ConsI del: collapse_punct.simps)
    next
      case nd: False
      have e1: "collapse_punct (c # d # cs) = c # collapse_punct (d # cs)" using nd by simp
      have e2: "collapse_punct (d # cs) = d # collapse_punct cs" using nd by (rule collapse_punct_keep)
      have ih: "no_adj term_punct (collapse_punct (d # cs))" using 1 False by simp
      show ?thesis unfolding e1 using ih nd unfolding e2 by simp
    qed
  qed
qed auto

lemma collapse_punct_id: "no_adj term_punct xs \<Longrightarrow> collapse_punct xs = xs"
  by (induction xs rule: collapse_punct.induct) auto

subsection \<open>White space\<close>

lemma no_adj_ws_collapse_ws: "no_adj py_isspace (collapse_ws xs)"
proof (induction xs rule: collapse_ws.induct)
  case (3 c d cs)
  obtain r where r: "collapse_ws (d # cs) = (if py_isspace d then CHR '' '' else d) # r"
    using collapse_ws_Cons by blast
  show ?case
  proof (cases "py_isspace c \<and> py_isspace d")
    case True
    then show ?thesis using 3 by simp
  next
    case False
    then show ?thesis using 3 r space_isspace by auto
  qed
qed auto

lemma spaces_collapse_ws: "c \<in> set (collapse_ws xs) \<Longrightarrow> py_isspace c \<Longrightarrow> c = CHR '' ''"
  by (induction xs rule: collapse_ws.induct) (auto split: if_splits)

lemma ws_ok_collapse_ws: "ws_ok (collapse_ws xs)"
  by (auto simp: ws_ok_def no_adj_ws_collapse_ws dest: spaces_collapse_ws)

lemma ws_ok_py_strip: "ws_ok xs \<Longrightarrow> ws_ok (py_strip xs)"
  using set_py_strip [of xs] by (auto simp: ws_ok_def no_adj_py_strip)

lemma collapse_ws_id: "ws_ok xs \<Longrightarrow> collapse_ws xs = xs"
  by (induction xs rule: collapse_ws.induct) (auto simp: ws_ok_def)

lemma dropWhile_id: "xs = [] \<or> \<not> P (hd xs) \<Longrightarrow> dropWhile P xs = xs"
  by (cases xs) auto

lemma drop_trailing_id: "xs = [] \<or> \<not> P (last xs) \<Longrightarrow> drop_trailing P xs = xs"
  using dropWhile_id [of "rev xs" P] by (auto simp: drop_trailing_def hd_rev)

lemma drop_trailing_last: "drop_trailing P xs \<noteq> [] \<Longrightarrow> \<not> P (last (drop_trailing P xs))"
  using hd_dropWhile [of P "rev xs"] by (simp add: drop_trailing_def last_rev)

lemma drop_trailing_hd: "drop_trailing P xs \<noteq> [] \<Longrightarrow> hd (drop_trailing P xs) = hd xs"
  using drop_trailing_split [of P xs] by (metis hd_append2)

lemma py_strip_ends:
  assumes "py_strip xs \<noteq> []"
  shows "\<not> py_isspace (hd (py_strip xs))" and "\<not> py_isspace (last (py_strip xs))"
proof -
  let ?d = "dropWhile py_isspace xs"
  have eq: "py_strip xs = drop_trailing py_isspace ?d" by (simp add: py_strip_def drop_trailing_def)
  have ne: "?d \<noteq> []"
  proof
    assume a: "?d = []"
    have "py_strip xs = []" unfolding py_strip_def a by simp
    then show False using assms by simp
  qed
  have "hd (py_strip xs) = hd ?d" using assms eq drop_trailing_hd by metis
  then show "\<not> py_isspace (hd (py_strip xs))" using hd_dropWhile [OF ne] by simp
  show "\<not> py_isspace (last (py_strip xs))" using assms eq drop_trailing_last by metis
qed

lemma py_strip_id: "xs = [] \<or> (\<not> py_isspace (hd xs) \<and> \<not> py_isspace (last xs)) \<Longrightarrow> py_strip xs = xs"
  using dropWhile_id [of xs py_isspace] drop_trailing_id [of xs py_isspace]
  by (auto simp: py_strip_def drop_trailing_def)


subsection \<open>The result of one pass\<close>

lemma newline_not_punct: "\<not> term_punct (CHR 0x0A)"
  by (simp add: term_punct_def)

lemma normalize_text_no_adj: "no_adj term_punct (normalize_text s)"
proof (cases "s = []")
  case False
  have "no_adj term_punct (strip_edges (collapse_punct (map py_lower s)))"
    by (rule no_adj_strip_edges [OF no_adj_collapse_punct newline_not_punct])
  then have "no_adj term_punct (collapse_ws (strip_edges (collapse_punct (map py_lower s))))"
    using punct_not_space by (intro no_adj_collapse_ws) blast+
  then show ?thesis using False by (simp add: normalize_text_def no_adj_py_strip)
qed (simp add: normalize_text_def)

lemma normalize_text_ws_ok: "ws_ok (normalize_text s)"
proof (cases "s = []")
  case True
  then show ?thesis by (simp add: normalize_text_def ws_ok_def)
next
  case False
  then show ?thesis by (simp add: normalize_text_def ws_ok_py_strip ws_ok_collapse_ws)
qed

lemma normalize_text_ends:
  assumes "normalize_text s \<noteq> []"
  shows "\<not> py_isspace (hd (normalize_text s))" and "\<not> py_isspace (last (normalize_text s))"
proof -
  have "s \<noteq> []" using assms by (auto simp: normalize_text_def)
  then have eq: "normalize_text s = py_strip (collapse_ws (strip_edges (collapse_punct (map py_lower s))))"
    by (simp add: normalize_text_def)
  show "\<not> py_isspace (hd (normalize_text s))" "\<not> py_isspace (last (normalize_text s))"
    using assms py_strip_ends unfolding eq by blast+
qed

lemma second_pass:
  assumes "t = normalize_text s" and "t \<noteq> []"
  shows "normalize_text t = py_strip (collapse_ws (strip_edges t))"
proof -
  have "map py_lower t = t" using assms(1) by (simp add: lower_fixed_normalize)
  moreover have "collapse_punct t = t"
    using assms(1) by (simp add: collapse_punct_id normalize_text_no_adj)
  ultimately show ?thesis using assms(2) by (simp add: normalize_text_def)
qed

lemma strip_edges_id:
  assumes "is_word (hd t)" and "is_word (last t)"
  shows "strip_edges t = t"
proof -
  have 1: "dropWhile sym t = t" using assms(1) by (intro dropWhile_id) (simp add: sym_def)
  have 2: "last t \<noteq> CHR 0x0A" using assms(2) word_not_space newline_isspace by auto
  have 3: "drop_trailing sym t = t" using assms(2) by (intro drop_trailing_id) (simp add: sym_def)
  show ?thesis using 1 2 3 by (simp add: strip_edges_def Let_def)
qed

lemma normalize_fixed:
  assumes "t = normalize_text s" and "t = [] \<or> (is_word (hd t) \<and> is_word (last t))"
  shows "normalize_text t = t"
proof (cases "t = []")
  case True
  then show ?thesis by (simp add: normalize_text_def)
next
  case False
  have "normalize_text t = py_strip (collapse_ws (strip_edges t))"
    using assms(1) False by (rule second_pass)
  also have "strip_edges t = t" using assms(2) False by (simp add: strip_edges_id)
  also have "collapse_ws t = t" using assms(1) by (simp add: collapse_ws_id normalize_text_ws_ok)
  also have "py_strip t = t"
    using assms(1) False normalize_text_ends [of s] by (intro py_strip_id) simp
  finally show ?thesis .
qed

subsection \<open>Lengths\<close>

lemma length_collapse_ws: "length (collapse_ws xs) \<le> length xs"
  by (induction xs rule: collapse_ws.induct) auto

lemma length_drop_trailing: "length (drop_trailing P xs) \<le> length xs"
  by (simp add: drop_trailing_def length_dropWhile_le order_trans [OF length_dropWhile_le])

lemma length_py_strip: "length (py_strip xs) \<le> length xs"
proof -
  have "length (py_strip xs) \<le> length (dropWhile py_isspace xs)"
    using length_drop_trailing [of py_isspace "dropWhile py_isspace xs"]
    by (simp add: py_strip_def drop_trailing_def)
  then show ?thesis using length_dropWhile_le [of py_isspace xs] by linarith
qed

lemma butlast_shorter: "xs \<noteq> [] \<Longrightarrow> length (butlast xs) < length xs"
  by (cases xs rule: rev_cases) auto

lemma length_strip_edges_aux:
  "length (if s1 \<noteq> [] \<and> last s1 = CHR 0x0A then drop_trailing sym (butlast s1) @ [CHR 0x0A]
           else drop_trailing sym s1) \<le> length s1"
proof (cases "s1 \<noteq> [] \<and> last s1 = CHR 0x0A")
  case True
  have a: "length (drop_trailing sym (butlast s1)) \<le> length (butlast s1)"
    by (rule length_drop_trailing)
  have b: "length (butlast s1) < length s1" by (rule butlast_shorter) (simp add: True)
  show ?thesis using True a b by (simp del: length_butlast)
next
  case False
  then show ?thesis using length_drop_trailing [of sym s1] by auto
qed

lemma length_strip_edges_hd:
  assumes "t \<noteq> []" and "sym (hd t)"
  shows "length (strip_edges t) < length t"
proof -
  obtain c cs where t: "t = c # cs" using assms(1) by (cases t) auto
  have "length (dropWhile sym t) \<le> length cs"
    using assms(2) t length_dropWhile_le [of sym cs] by simp
  then have "length (dropWhile sym t) < length t" using t by simp
  then show ?thesis
    using length_strip_edges_aux [of "dropWhile sym t"] by (simp add: strip_edges_def Let_def)
qed

lemma length_strip_edges_last:
  assumes "t \<noteq> []" and "\<not> sym (hd t)" and "sym (last t)"
  shows "length (strip_edges t) < length t"
proof -
  have 1: "dropWhile sym t = t" using assms(2) by (intro dropWhile_id) simp
  have 2: "last t \<noteq> CHR 0x0A" using assms(3) newline_isspace by (auto simp: sym_def)
  have "rev (butlast t @ [last t]) = last t # rev (butlast t)" by simp
  then have r: "rev t = last t # rev (butlast t)" using assms(1) by simp
  have "dropWhile sym (rev t) = dropWhile sym (rev (butlast t))"
    by (subst r) (simp add: assms(3))
  then have "length (drop_trailing sym t) \<le> length (butlast t)"
    using length_dropWhile_le [of sym "rev (butlast t)"]
    by (simp add: drop_trailing_def del: length_butlast)
  then have "length (drop_trailing sym t) < length t"
    using butlast_shorter [OF assms(1)] by linarith
  then show ?thesis using 1 2 by (simp add: strip_edges_def Let_def)
qed

lemma normalize_not_fixed:
  assumes "t = normalize_text s" and "t \<noteq> []" and "\<not> (is_word (hd t) \<and> is_word (last t))"
  shows "length (normalize_text t) < length t"
proof -
  have ends: "\<not> py_isspace (hd t)" "\<not> py_isspace (last t)"
    using assms(1,2) normalize_text_ends [of s] by simp_all
  have "sym (hd t) \<or> (\<not> sym (hd t) \<and> sym (last t))"
    using assms(3) ends by (auto simp: sym_def)
  then have "length (strip_edges t) < length t"
    using assms(2) length_strip_edges_hd length_strip_edges_last by blast
  moreover have "length (normalize_text t) \<le> length (strip_edges t)"
    using second_pass [OF assms(1,2)] length_py_strip [of "collapse_ws (strip_edges t)"]
      length_collapse_ws [of "strip_edges t"] by simp
  ultimately show ?thesis by simp
qed

text \<open>
  C8 (amended). A second pass of \<open>normalize_text\<close> over its own output changes nothing
  exactly when that output is empty or begins and ends with a word character. (Trimming the
  white space in the last step can uncover punctuation at the ends, which only the next
  pass removes.)
\<close>

theorem normalize_text_twice:
  "normalize_text (normalize_text s) = normalize_text s \<longleftrightarrow>
     normalize_text s = [] \<or>
     (is_word (hd (normalize_text s)) \<and> is_word (last (normalize_text s)))"
proof
  assume fx: "normalize_text (normalize_text s) = normalize_text s"
  show "normalize_text s = [] \<or>
     (is_word (hd (normalize_text s)) \<and> is_word (last (normalize_text s)))"
  proof (rule ccontr)
    assume "\<not> ?thesis"
    then have "length (normalize_text (normalize_text s)) < length (normalize_text s)"
      using normalize_not_fixed [of "normalize_text s" s] by blast
    then show False using fx by simp
  qed
next
  assume "normalize_text s = [] \<or>
     (is_word (hd (normalize_text s)) \<and> is_word (last (normalize_text s)))"
  then show "normalize_text (normalize_text s) = normalize_text s"
    using normalize_fixed [of "normalize_text s" s] by blast
qed

theorem normalize_text_twice_witness:
  "normalize_text ''  Hello,,,  WORLD!!?  v1.2.0 '' = ''hello, world? v1.2.0'' \<and>
   normalize_text ''hello, world? v1.2.0'' = ''hello, world? v1.2.0''"
proof -
  have v: "normalize_text ''  Hello,,,  WORLD!!?  v1.2.0 '' = ''hello, world? v1.2.0''"
    by code_simp
  have w: "is_word (CHR ''h'')" "is_word (CHR ''0'')"
    by code_simp+
  have "is_word (hd ''hello, world? v1.2.0'')" "is_word (last ''hello, world? v1.2.0'')"
    by (simp_all add: w)
  then have "normalize_text ''hello, world? v1.2.0'' = ''hello, world? v1.2.0''"
    using normalize_text_twice [of "''  Hello,,,  WORLD!!?  v1.2.0 ''"] unfolding v by blast
  then show ?thesis using v by simp
qed

text \<open>
  C8 as stated fails: the text \<open>'' .a''\<close> is normalised to \<open>''.a''\<close>, and a second pass
  gives \<open>''a''\<close>.
\<close>

theorem normalize_text_not_idempotent:
  "normalize_text '' .a'' = ''.a'' \<and> normalize_text (normalize_text '' .a'') = ''a'' \<and>
   normalize_text (normalize_text '' .a'') \<noteq> normalize_text '' .a''"
  by code_simp

section \<open>Properties of the LLM extractor\<close>

lemma map_of_map_field:
  "map_of (map (\<lambda>(k, v). (k, f k v)) d) k = map_option (f k) (map_of d k)"
  by (induction d) auto

lemma fst_map_field: "map fst (map (\<lambda>(k, v). (k, f k v)) d) = map fst d"
  by (induction d) auto

lemma title_key: "''title'' \<in> set SCHEMA_KEYS"
  unfolding SCHEMA_KEYS_def by (rule list.set_intros(1))

lemma default_schema_nonempty:
  assumes "default_schema_ok dflt"
  shows "dflt \<noteq> []"
proof
  assume "dflt = []"
  moreover have "set (map fst dflt) = set SCHEMA_KEYS"
    using assms unfolding default_schema_ok_def by blast
  ultimately have "set SCHEMA_KEYS = {}" by simp
  then show False using title_key by simp
qed

lemma validate_extraction_dict:
  "dflt \<noteq> [] \<Longrightarrow> validate_extraction (PDict r) dflt
     = Inr (map (\<lambda>(key, dv). (key, validate_field r key dv)) dflt)"
  by (simp add: validate_extraction_def)


lemma validate_field_present:
  assumes "map_of r key = Some v" and "\<not> is_list v"
  shows "validate_field r key dv = (case v of PStr s \<Rightarrow> PStr (py_strip (take 5000 s)) | _ \<Rightarrow> v)"
proof -
  have 1: "dict_get_default r key dv = v" using assms(1) by (simp add: dict_get_default_def)
  show ?thesis
    unfolding validate_field_def 1 Let_def using assms(2) by (cases v) simp_all
qed

lemma bare_value_not_list:
  "\<not> is_list v \<Longrightarrow> \<not> is_list (case v of PStr s \<Rightarrow> PStr (py_strip (take 5000 s)) | _ \<Rightarrow> v)"
  by (cases v) simp_all

lemma key_in_default:
  assumes "default_schema_ok dflt" and "k \<in> set SCHEMA_KEYS"
  shows "\<exists>dv. map_of dflt k = Some dv"
proof -
  have "set (map fst dflt) = set SCHEMA_KEYS"
    using assms(1) unfolding default_schema_ok_def by blast
  then have "k \<in> fst ` set dflt"
    using assms(2) by simp
  then have "map_of dflt k \<noteq> None"
    by (simp only: map_of_eq_None_iff not_not)
  then show ?thesis by blast
qed


lemma steps_key: "''steps_to_reproduce'' \<in> set SCHEMA_KEYS"
  unfolding SCHEMA_KEYS_def by simp

text \<open>
  C2 fails on \<open>validate_extraction\<close>: the loop first overwrites the copied default with
  the parsed value and only then asks whether the value is a list, so a parsed
  \<open>steps_to_reproduce\<close> that is no list is never coerced. Whatever default schema is in
  use, such a value stays what it is (a string is cut to 5000 characters and stripped).
\<close>

theorem validate_extraction_keeps_non_list:
  assumes "default_schema_ok dflt"
    and "map_of r ''steps_to_reproduce'' = Some v" and "\<not> is_list v"
  shows "\<exists>d. validate_extraction (PDict r) dflt = Inr d \<and> map fst d = map fst dflt \<and>
             \<not> is_list (dict_get d ''steps_to_reproduce'') \<and>
             dict_get d ''steps_to_reproduce''
               = (case v of PStr s \<Rightarrow> PStr (py_strip (take 5000 s)) | _ \<Rightarrow> v)"
proof -
  let ?d = "map (\<lambda>(key, dv). (key, validate_field r key dv)) dflt"
  let ?w = "case v of PStr s \<Rightarrow> PStr (py_strip (take 5000 s)) | _ \<Rightarrow> v"
  obtain dv where dv: "map_of dflt ''steps_to_reproduce'' = Some dv"
    using key_in_default [OF assms(1) steps_key] by blast
  have run: "validate_extraction (PDict r) dflt = Inr ?d"
    using default_schema_nonempty [OF assms(1)] by (rule validate_extraction_dict)
  have "dict_get ?d ''steps_to_reproduce'' = validate_field r ''steps_to_reproduce'' dv"
    by (simp only: dict_get_def dict_get_default_def map_of_map_field dv option.map option.case)
  then have get: "dict_get ?d ''steps_to_reproduce'' = ?w"
    by (simp only: validate_field_present [OF assms(2,3)])
  have keys: "map fst ?d = map fst dflt" by (rule fst_map_field)
  have nl: "\<not> is_list ?w" using assms(3) by (rule bare_value_not_list)
  show ?thesis
  proof (intro exI [of _ ?d] conjI)
    show "validate_extraction (PDict r) dflt = Inr ?d" by (rule run)
    show "map fst ?d = map fst dflt" by (rule keys)
    show "\<not> is_list (dict_get ?d ''steps_to_reproduce'')" unfolding get by (rule nl)
    show "dict_get ?d ''steps_to_reproduce'' = ?w" by (rule get)
  qed
qed

theorem validate_extraction_keeps_non_list_witness:
  "default_schema_ok EXAMPLE_SCHEMA \<and>
   llm_extract (\<lambda>t. Content ''reply'')
     (\<lambda>s. Some (PDict [(''steps_to_reproduce'', PStr ''click login'')]))
     EXAMPLE_SCHEMA ''app crashes'' True
   = Inr (PDict
       [(''title'', PStr []), (''description'', PStr []), (''version'', PStr []),
        (''severity'', PStr []), (''steps_to_reproduce'', PStr ''click login''),
        (''stack_trace'', PStr [])])"
proof -
  have ok: "default_schema_ok EXAMPLE_SCHEMA" by code_simp
  have m: "map_of [(''steps_to_reproduce'', PStr ''click login'')] ''steps_to_reproduce''
             = Some (PStr ''click login'')" by simp
  have nl: "\<not> is_list (PStr ''click login'')" by simp
  from validate_extraction_keeps_non_list [OF ok m nl]
  have "\<not> is_list (dict_get (projr (validate_extraction
          (PDict [(''steps_to_reproduce'', PStr ''click login'')]) EXAMPLE_SCHEMA))
          ''steps_to_reproduce'')"
    by auto
  moreover have "llm_extract (\<lambda>t. Content ''reply'')
     (\<lambda>s. Some (PDict [(''steps_to_reproduce'', PStr ''click login'')]))
     EXAMPLE_SCHEMA ''app crashes'' True
   = Inr (PDict
       [(''title'', PStr []), (''description'', PStr []), (''version'', PStr []),
        (''severity'', PStr []), (''steps_to_reproduce'', PStr ''click login''),
        (''stack_trace'', PStr [])])"
    by code_simp
  ultimately show ?thesis using ok by simp
qed

subsection \<open>Lines of a non-blank text\<close>







subsection \<open>Dict update\<close>





subsection \<open>The branches of \<open>llm_extract\<close>\<close>





lemma validate_extraction_error:
  "validate_extraction j dflt = Inl e \<Longrightarrow> e = AttributeError"
  by (cases j) (auto simp: validate_extraction_def split: if_splits)









section \<open>Properties of the merge step\<close>






section \<open>Properties of the collectors\<close>

lemma collect_sources:
  "collect f xs = Inr ys \<Longrightarrow> y \<in> set ys \<Longrightarrow> \<exists>x \<in> set xs. f x = Inr (Some y)"
proof (induction xs arbitrary: ys)
  case Nil
  then show ?case by simp
next
  case (Cons x xs)
  show ?case
  proof (cases "f x")
    case (Inl e)
    then show ?thesis using Cons.prems by simp
  next
    case (Inr o1)
    show ?thesis
    proof (cases o1)
      case None
      then show ?thesis using Cons Inr by auto
    next
      case (Some z)
      then obtain zs where zs: "collect f xs = Inr zs" "ys = z # zs"
        using Cons.prems(1) Inr by (auto split: sum.splits)
      then show ?thesis using Cons.IH [OF zs(1)] Cons.prems(2) Inr Some by auto
    qed
  qed
qed

lemma dt_less_le: "dt_less a b = Inr False \<Longrightarrow> dt_le b a"
  by (cases a; cases b) auto

lemma created_at_of_issue:
  assumes "created_at_of lib item = Inr t"
  shows "\<exists>c. dict_get item ''created_at'' = PStr c \<and>
             fromisoformat lib (py_replace ''Z'' ''+00:00'' c) = Some t"
  using assms
  by (auto simp: created_at_of_def dict_get_def dict_get_default_def
      split: option.splits pyval.splits)

lemma github_issue_created: "dict_get (github_issue item) ''created_at'' = dict_get item ''created_at''"
  by (simp add: github_issue_def dict_get_def dict_get_default_def)

lemma gitee_issue_created: "dict_get (gitee_issue item) ''created_at'' = dict_get item ''created_at''"
  by (simp add: gitee_issue_def dict_get_def dict_get_default_def)

lemma github_item_kept:
  assumes "github_item lib until item = Inr (Some r)"
  shows "\<not> flagged item" and "r = github_issue item"
    and "\<exists>t. issue_created lib r = Some t \<and> until_holds (parse_ymd lib) until t"
proof -
  show nf: "\<not> flagged item" using assms by (auto simp: github_item_def)
  obtain t where t: "created_at_of lib item = Inr t"
    using assms nf by (auto simp: github_item_def split: sum.splits)
  show r: "r = github_issue item"
    using assms nf t
    by (auto simp: github_item_def split: option.splits if_splits sum.splits)
  obtain c where c: "dict_get item ''created_at'' = PStr c"
    "fromisoformat lib (py_replace ''Z'' ''+00:00'' c) = Some t"
    using created_at_of_issue [OF t] by blast
  have ic: "issue_created lib r = Some t"
    unfolding r issue_created_def github_issue_created by (simp add: c)
  have "until_holds (parse_ymd lib) until t"
    using assms nf t
    by (auto simp: github_item_def until_holds_def parse_ymd_def dt_less_le
        split: option.splits if_splits sum.splits)
  then show "\<exists>t. issue_created lib r = Some t \<and> until_holds (parse_ymd lib) until t"
    using ic by blast
qed

lemma before_since_holds:
  "before_since lib since t = Inr False \<Longrightarrow> since_holds (parse_bound lib) since t"
  by (auto simp: before_since_def since_holds_def dt_less_le split: option.splits if_splits)

lemma after_until_holds:
  "after_until lib until t = Inr False \<Longrightarrow> until_holds (parse_bound lib) until t"
  by (auto simp: after_until_def until_holds_def dt_less_le split: option.splits if_splits)

lemma gitee_item_kept:
  assumes "gitee_item lib since until item = Inr (Some r)"
  shows "\<not> flagged item" and "r = gitee_issue item"
    and "\<exists>t. issue_created lib r = Some t \<and> since_holds (parse_bound lib) since t \<and>
             until_holds (parse_bound lib) until t"
proof -
  show nf: "\<not> flagged item" using assms by (auto simp: gitee_item_def)
  obtain t where t: "created_at_of lib item = Inr t"
    using assms nf by (auto simp: gitee_item_def split: sum.splits)
  have b: "before_since lib since t = Inr False" and a: "after_until lib until t = Inr False"
    using assms nf t by (auto simp: gitee_item_def split: sum.splits bool.splits if_splits)
  show r: "r = gitee_issue item"
    using assms nf t a b by (simp add: gitee_item_def)
  obtain c where c: "dict_get item ''created_at'' = PStr c"
    "fromisoformat lib (py_replace ''Z'' ''+00:00'' c) = Some t"
    using created_at_of_issue [OF t] by blast
  have ic: "issue_created lib r = Some t"
    unfolding r issue_created_def gitee_issue_created by (simp add: c)
  show "\<exists>t. issue_created lib r = Some t \<and> since_holds (parse_bound lib) since t \<and>
             until_holds (parse_bound lib) until t"
    using ic before_since_holds [OF b] after_until_holds [OF a] by blast
qed


lemma gitee_pages_sources:
  "gitee_pages fuel lib api state per_page since until page acc = Some (Inr out)
   \<Longrightarrow> r \<in> set out
   \<Longrightarrow> r \<in> set acc \<or>
       (\<exists>p items it. api (gitee_params state per_page p) = Page items \<and> it \<in> set items \<and>
                     gitee_item lib since until it = Inr (Some r))"
proof (induction fuel arbitrary: page acc)
  case 0
  then show ?case by simp
next
  case (Suc fuel)
  show ?case
  proof (cases "api (gitee_params state per_page page)")
    case Failed
    then show ?thesis using Suc.prems by simp
  next
    case (Page items)
    show ?thesis
    proof (cases "items = []")
      case True
      then show ?thesis using Suc.prems Page by simp
    next
      case False
      show ?thesis
      proof (cases "collect (gitee_item lib since until) items")
        case (Inl e)
        then show ?thesis using Suc.prems Page False by simp
      next
        case (Inr new)
        then have "gitee_pages fuel lib api state per_page since until (page + 1) (acc @ new)
                     = Some (Inr out)"
          using Suc.prems(1) Page False by simp
        from Suc.IH [OF this Suc.prems(2)]
        show ?thesis
        proof
          assume "r \<in> set (acc @ new)"
          then show ?thesis using collect_sources [OF Inr] Page by auto
        qed blast
      qed
    qed
  qed
qed

lemma gitee_fetch_sources:
  assumes "gitee_fetch_recent fuel lib api owner repo state per_page since until = Some (Inr out)"
    and "r \<in> set out"
  shows "\<exists>p items it. api (gitee_params state per_page p) = Page items \<and> it \<in> set items \<and>
                      gitee_item lib since until it = Inr (Some r)"
proof -
  have "gitee_pages fuel lib api state per_page since until 1 [] = Some (Inr out)"
    using assms(1) by (auto simp: gitee_fetch_recent_def split: if_splits)
  from gitee_pages_sources [OF this assms(2)] show ?thesis by simp
qed

lemma github_fetch_sources:
  assumes "github_fetch_recent lib api owner repo state per_page since until = Inr out"
    and "r \<in> set out"
  shows "\<exists>items it. api (github_params lib state per_page since) = Page items \<and> it \<in> set items \<and>
                    github_item lib until it = Inr (Some r)"
proof -
  obtain items where p: "api (github_params lib state per_page since) = Page items"
    and c: "collect (github_item lib until) items = Inr out"
    using assms(1) by (auto simp: github_fetch_recent_def split: if_splits response.splits)
  show ?thesis using collect_sources [OF c assms(2)] p by blast
qed

text \<open>
  C4 fails for the GitHub variant: \<open>GithubCollector.fetch_recent\<close> sends one request, without
  a page number, and returns what that one answer holds. Two trackers that agree on this
  request give the same result, whatever their further pages hold.
\<close>

theorem github_fetch_one_request:
  assumes "api (github_params lib state per_page since) = api' (github_params lib state per_page since)"
  shows "github_fetch_recent lib api owner repo state per_page since until
           = github_fetch_recent lib api' owner repo state per_page since until"
  using assms by (simp add: github_fetch_recent_def)

theorem github_fetch_one_request_witness:
  "github_fetch_recent EXAMPLE_LIB TWO_PAGES (PStr ''o'') (PStr ''r'') ''open'' 100 None None
     = github_fetch_recent EXAMPLE_LIB ONE_PAGE (PStr ''o'') (PStr ''r'') ''open'' 100 None None \<and>
   github_fetch_recent EXAMPLE_LIB TWO_PAGES (PStr ''o'') (PStr ''r'') ''open'' 100 None None
     = Inr [github_issue (item_of 1 ''2024-03-01T00:00:00Z'')] \<and>
   gitee_fetch_recent 3 EXAMPLE_LIB TWO_PAGES (PStr ''o'') (PStr ''r'') ''open'' 100 None None
     = Some (Inr [gitee_issue (item_of 1 ''2024-03-01T00:00:00Z''),
                  gitee_issue (item_of 2 ''2024-03-01T00:00:00Z'')]) \<and>
   gitlab_fetch_recent 3 EXAMPLE_LIB TWO_PAGES (PStr ''o'') (PStr ''r'') PNone ''opened'' 100 None None
     = Some (Inr [gitlab_issue (PStr ''o'') (PStr ''r'') (item_of 1 ''2024-03-01T00:00:00Z''),
                  gitlab_issue (PStr ''o'') (PStr ''r'') (item_of 2 ''2024-03-01T00:00:00Z'')])"
proof -
  have same: "TWO_PAGES (github_params EXAMPLE_LIB ''open'' 100 None)
                = ONE_PAGE (github_params EXAMPLE_LIB ''open'' 100 None)"
    by code_simp
  have 1: "github_fetch_recent EXAMPLE_LIB TWO_PAGES (PStr ''o'') (PStr ''r'') ''open'' 100 None None
     = Inr [github_issue (item_of 1 ''2024-03-01T00:00:00Z'')]"
    by code_simp
  have 2: "gitee_fetch_recent 3 EXAMPLE_LIB TWO_PAGES (PStr ''o'') (PStr ''r'') ''open'' 100 None None
     = Some (Inr [gitee_issue (item_of 1 ''2024-03-01T00:00:00Z''),
                  gitee_issue (item_of 2 ''2024-03-01T00:00:00Z'')])"
    by code_simp
  have 3: "gitlab_fetch_recent 3 EXAMPLE_LIB TWO_PAGES (PStr ''o'') (PStr ''r'') PNone ''opened'' 100 None None
     = Some (Inr [gitlab_issue (PStr ''o'') (PStr ''r'') (item_of 1 ''2024-03-01T00:00:00Z''),
                  gitlab_issue (PStr ''o'') (PStr ''r'') (item_of 2 ''2024-03-01T00:00:00Z'')])"
    by code_simp
  show ?thesis
    using github_fetch_one_request [where api = TWO_PAGES and api' = ONE_PAGE
        and lib = EXAMPLE_LIB and state = "''open''" and per_page = 100 and since = None
        and owner = "PStr ''o''" and repo = "PStr ''r''" and until = None, OF same] 1 2 3
    by (simp only: simp_thms)
qed


lemma flagged_skipped:
  "flagged it \<Longrightarrow> github_item lib until it = Inr None"
  "flagged it \<Longrightarrow> gitee_item lib since until it = Inr None"
  by (simp_all add: github_item_def gitee_item_def)

text \<open>
  C5 (amended). What the collectors check themselves on the items they return: the Gitee
  variant both bounds, \<open>since \<le> created_at \<le> until\<close>, each when supplied; the GitHub
  variant the upper bound only. (GitHub's lower bound and both bounds of GitLab go into the
  query and are left to the tracker.)
\<close>

theorem time_window_client_side:
  "(gitee_fetch_recent fuel lib api owner repo state per_page since until = Some (Inr out) \<longrightarrow>
      (\<forall>r \<in> set out. \<exists>t. issue_created lib r = Some t \<and>
                          since_holds (parse_bound lib) since t \<and>
                          until_holds (parse_bound lib) until t)) \<and>
   (github_fetch_recent lib api' owner repo state per_page since until = Inr out' \<longrightarrow>
      (\<forall>r \<in> set out'. \<exists>t. issue_created lib r = Some t \<and>
                           until_holds (parse_ymd lib) until t))"
proof (intro conjI impI ballI)
  fix r
  assume "gitee_fetch_recent fuel lib api owner repo state per_page since until = Some (Inr out)"
    and "r \<in> set out"
  then obtain it where "gitee_item lib since until it = Inr (Some r)"
    using gitee_fetch_sources by blast
  then show "\<exists>t. issue_created lib r = Some t \<and> since_holds (parse_bound lib) since t \<and>
                 until_holds (parse_bound lib) until t"
    by (rule gitee_item_kept(3))
next
  fix r
  assume "github_fetch_recent lib api' owner repo state per_page since until = Inr out'"
    and "r \<in> set out'"
  then obtain it where "github_item lib until it = Inr (Some r)"
    using github_fetch_sources by blast
  then show "\<exists>t. issue_created lib r = Some t \<and> until_holds (parse_ymd lib) until t"
    by (rule github_item_kept(3))
qed

theorem time_window_client_side_witness:
  "gitee_fetch_recent 3 EXAMPLE_LIB TWO_PAGES (PStr ''o'') (PStr ''r'') ''open'' 100
     (Some ''2024-01-01'') (Some ''2024-06-01'')
     = Some (Inr [gitee_issue (item_of 1 ''2024-03-01T00:00:00Z''),
                  gitee_issue (item_of 2 ''2024-03-01T00:00:00Z'')]) \<and>
   (\<exists>t. issue_created EXAMPLE_LIB (gitee_issue (item_of 1 ''2024-03-01T00:00:00Z'')) = Some t \<and>
        since_holds (parse_bound EXAMPLE_LIB) (Some ''2024-01-01'') t \<and>
        until_holds (parse_bound EXAMPLE_LIB) (Some ''2024-06-01'') t) \<and>
   github_fetch_recent EXAMPLE_LIB TWO_PAGES (PStr ''o'') (PStr ''r'') ''open'' 100
     (Some ''2024-01-01'') (Some ''2024-06-01'')
     = Inr [github_issue (item_of 1 ''2024-03-01T00:00:00Z'')] \<and>
   (\<exists>t. issue_created EXAMPLE_LIB (github_issue (item_of 1 ''2024-03-01T00:00:00Z'')) = Some t \<and>
        until_holds (parse_ymd EXAMPLE_LIB) (Some ''2024-06-01'') t)"
proof -
  have g: "gitee_fetch_recent 3 EXAMPLE_LIB TWO_PAGES (PStr ''o'') (PStr ''r'') ''open'' 100
     (Some ''2024-01-01'') (Some ''2024-06-01'')
     = Some (Inr [gitee_issue (item_of 1 ''2024-03-01T00:00:00Z''),
                  gitee_issue (item_of 2 ''2024-03-01T00:00:00Z'')])"
    by code_simp
  have h: "github_fetch_recent EXAMPLE_LIB TWO_PAGES (PStr ''o'') (PStr ''r'') ''open'' 100
     (Some ''2024-01-01'') (Some ''2024-06-01'')
     = Inr [github_issue (item_of 1 ''2024-03-01T00:00:00Z'')]"
    by code_simp
  have 1: "\<exists>t. issue_created EXAMPLE_LIB (gitee_issue (item_of 1 ''2024-03-01T00:00:00Z'')) = Some t \<and>
        since_holds (parse_bound EXAMPLE_LIB) (Some ''2024-01-01'') t \<and>
        until_holds (parse_bound EXAMPLE_LIB) (Some ''2024-06-01'') t"
    using time_window_client_side [THEN conjunct1, THEN mp, OF g] by simp
  have 2: "\<exists>t. issue_created EXAMPLE_LIB (github_issue (item_of 1 ''2024-03-01T00:00:00Z'')) = Some t \<and>
        until_holds (parse_ymd EXAMPLE_LIB) (Some ''2024-06-01'') t"
    using time_window_client_side [THEN conjunct2, THEN mp, OF h] by simp
  show ?thesis using g h 1 2 by (simp only: simp_thms)
qed

text \<open>
  C5 as stated fails: with the window 2024-01-01 to 2024-06-01 and a tracker that does not
  filter, the GitLab variant returns an issue created in May 2023 and one created in
  September 2024, and the GitHub variant returns the one of May 2023.
\<close>

theorem time_window_not_enforced:
  "gitlab_fetch_recent 3 EXAMPLE_LIB CARELESS (PStr ''o'') (PStr ''r'') PNone ''opened'' 100
     (Some ''2024-01-01'') (Some ''2024-06-01'')
     = Some (Inr [gitlab_issue (PStr ''o'') (PStr ''r'') (item_of 1 ''2023-05-01T00:00:00Z''),
                  gitlab_issue (PStr ''o'') (PStr ''r'') (item_of 2 ''2024-09-01T00:00:00Z''),
                  gitlab_issue (PStr ''o'') (PStr ''r'')
                    ((''pull_request'', PDict []) # item_of 3 ''2024-03-01T00:00:00Z'')]) \<and>
   github_fetch_recent EXAMPLE_LIB CARELESS (PStr ''o'') (PStr ''r'') ''open'' 100
     (Some ''2024-01-01'') (Some ''2024-06-01'')
     = Inr [github_issue (item_of 1 ''2023-05-01T00:00:00Z'')] \<and>
   issue_created EXAMPLE_LIB (github_issue (item_of 1 ''2023-05-01T00:00:00Z'')) = Some (Aware (- 245)) \<and>
   issue_created EXAMPLE_LIB (gitlab_issue (PStr ''o'') (PStr ''r'') (item_of 1 ''2023-05-01T00:00:00Z''))
     = Some (Aware (- 245)) \<and>
   issue_created EXAMPLE_LIB (gitlab_issue (PStr ''o'') (PStr ''r'') (item_of 2 ''2024-09-01T00:00:00Z''))
     = Some (Aware 244) \<and>
   parse_bound EXAMPLE_LIB ''2024-01-01'' = Some (Aware 0) \<and>
   parse_bound EXAMPLE_LIB ''2024-06-01'' = Some (Aware 152) \<and>
   \<not> since_holds (parse_bound EXAMPLE_LIB) (Some ''2024-01-01'') (Aware (- 245)) \<and>
   \<not> until_holds (parse_bound EXAMPLE_LIB) (Some ''2024-06-01'') (Aware 244)"
  by code_simp

text \<open>
  C6 (amended). In the GitHub and the Gitee variant every returned issue is built from an
  item of a fetched page that does not carry the pull request flag, and a flagged item is
  skipped. (The GitLab variant has no such test.)
\<close>

theorem pull_requests_excluded:
  "(github_fetch_recent lib api owner repo state per_page since until = Inr out \<longrightarrow>
      (\<forall>r \<in> set out. \<exists>items it. api (github_params lib state per_page since) = Page items \<and>
                           it \<in> set items \<and> \<not> flagged it \<and> r = github_issue it)) \<and>
   (gitee_fetch_recent fuel lib api' owner repo state per_page since until = Some (Inr out') \<longrightarrow>
      (\<forall>r \<in> set out'. \<exists>p items it. api' (gitee_params state per_page p) = Page items \<and>
                           it \<in> set items \<and> \<not> flagged it \<and> r = gitee_issue it)) \<and>
   (flagged item \<longrightarrow> github_item lib until item = Inr None \<and>
                     gitee_item lib since until item = Inr None)"
proof (intro conjI impI ballI)
  fix r
  assume "github_fetch_recent lib api owner repo state per_page since until = Inr out"
    and "r \<in> set out"
  then obtain items it where i: "api (github_params lib state per_page since) = Page items"
    "it \<in> set items" "github_item lib until it = Inr (Some r)"
    using github_fetch_sources by blast
  show "\<exists>items it. api (github_params lib state per_page since) = Page items \<and>
                   it \<in> set items \<and> \<not> flagged it \<and> r = github_issue it"
    using i(1,2) github_item_kept(1,2) [OF i(3)] by blast
next
  fix r
  assume "gitee_fetch_recent fuel lib api' owner repo state per_page since until = Some (Inr out')"
    and "r \<in> set out'"
  then obtain p items it where i: "api' (gitee_params state per_page p) = Page items"
    "it \<in> set items" "gitee_item lib since until it = Inr (Some r)"
    using gitee_fetch_sources by blast
  show "\<exists>p items it. api' (gitee_params state per_page p) = Page items \<and>
                   it \<in> set items \<and> \<not> flagged it \<and> r = gitee_issue it"
    using i(1,2) gitee_item_kept(1,2) [OF i(3)] by blast
next
  assume "flagged item"
  then show "github_item lib until item = Inr None" by (rule flagged_skipped(1))
next
  assume "flagged item"
  then show "gitee_item lib since until item = Inr None" by (rule flagged_skipped(2))
qed

theorem pull_requests_excluded_witness:
  "flagged ((''pull_request'', PDict []) # item_of 3 ''2024-03-01T00:00:00Z'') \<and>
   github_item EXAMPLE_LIB None ((''pull_request'', PDict []) # item_of 3 ''2024-03-01T00:00:00Z'')
     = Inr None \<and>
   gitee_item EXAMPLE_LIB None None ((''pull_request'', PDict []) # item_of 3 ''2024-03-01T00:00:00Z'')
     = Inr None \<and>
   github_fetch_recent EXAMPLE_LIB CARELESS (PStr ''o'') (PStr ''r'') ''open'' 100 None None
     = Inr [github_issue (item_of 1 ''2023-05-01T00:00:00Z''),
            github_issue (item_of 2 ''2024-09-01T00:00:00Z'')] \<and>
   gitee_fetch_recent 3 EXAMPLE_LIB CARELESS (PStr ''o'') (PStr ''r'') ''open'' 100 None None
     = Some (Inr [gitee_issue (item_of 1 ''2023-05-01T00:00:00Z''),
                  gitee_issue (item_of 2 ''2024-09-01T00:00:00Z'')])"
proof -
  have f: "flagged ((''pull_request'', PDict []) # item_of 3 ''2024-03-01T00:00:00Z'')"
    by (simp add: flagged_def)
  have s: "github_item EXAMPLE_LIB None ((''pull_request'', PDict []) # item_of 3 ''2024-03-01T00:00:00Z'')
             = Inr None \<and>
           gitee_item EXAMPLE_LIB None None ((''pull_request'', PDict []) # item_of 3 ''2024-03-01T00:00:00Z'')
             = Inr None"
    using pull_requests_excluded [THEN conjunct2, THEN conjunct2, THEN mp, OF f] .
  have h: "github_fetch_recent EXAMPLE_LIB CARELESS (PStr ''o'') (PStr ''r'') ''open'' 100 None None
     = Inr [github_issue (item_of 1 ''2023-05-01T00:00:00Z''),
            github_issue (item_of 2 ''2024-09-01T00:00:00Z'')]"
    by code_simp
  have g: "gitee_fetch_recent 3 EXAMPLE_LIB CARELESS (PStr ''o'') (PStr ''r'') ''open'' 100 None None
     = Some (Inr [gitee_issue (item_of 1 ''2023-05-01T00:00:00Z''),
                  gitee_issue (item_of 2 ''2024-09-01T00:00:00Z'')])"
    by code_simp
  show ?thesis using f s h g by (simp only: simp_thms)
qed

text \<open>
  C6 as stated fails for the GitLab variant: an item with the pull request flag on a page of
  the tracker is returned like any other.
\<close>

theorem gitlab_returns_flagged:
  "flagged ((''pull_request'', PDict []) # item_of 3 ''2024-03-01T00:00:00Z'') \<and>
   gitlab_fetch_recent 3 EXAMPLE_LIB CARELESS (PStr ''o'') (PStr ''r'') PNone ''opened'' 100 None None
     = Some (Inr [gitlab_issue (PStr ''o'') (PStr ''r'') (item_of 1 ''2023-05-01T00:00:00Z''),
                  gitlab_issue (PStr ''o'') (PStr ''r'') (item_of 2 ''2024-09-01T00:00:00Z''),
                  gitlab_issue (PStr ''o'') (PStr ''r'')
                    ((''pull_request'', PDict []) # item_of 3 ''2024-03-01T00:00:00Z'')])"
  by code_simp

section \<open>Properties of the run\<close>

lemma insert_one_growth:
  assumes "insert_one now doc st = (Inr r, st')"
  shows "int (length (defects st')) - int (length (defects st)) = (if r = None then 0 else 1)"
  using assms
  by (auto simp: insert_one_def insert_ignore_def Let_def split: if_splits)

lemma run_issues_count:
  "run_issues env now repo_id issues st num = (Inr n, st')
   \<Longrightarrow> n - num = int (length (defects st')) - int (length (defects st))"
proof (induction issues arbitrary: st num)
  case Nil
  then show ?case by simp
next
  case (Cons issue issues)
  show ?case
  proof (cases "is_duplicate repo_id (dict_get issue ''issue_id'') st")
    case (Inl e)
    then show ?thesis using Cons.prems by simp
  next
    case (Inr dup)
    show ?thesis
    proof (cases dup)
      case True
      then have "run_issues env now repo_id issues st num = (Inr n, st')"
        using Cons.prems Inr by simp
      then show ?thesis by (rule Cons.IH)
    next
      case False
      show ?thesis
      proof (cases "process_issue env issue")
        case (Inl e)
        then show ?thesis using Cons.prems Inr False by simp
      next
        case doc: (Inr doc)
        obtain res st1 where ins: "insert_one now (dict_set doc ''repo_id'' repo_id) st = (res, st1)"
          by (cases "insert_one now (dict_set doc ''repo_id'' repo_id) st") blast
        show ?thesis
        proof (cases res)
          case (Inl e)
          then show ?thesis using Cons.prems Inr False doc ins by simp
        next
          case r: (Inr r)
          have g: "int (length (defects st1)) - int (length (defects st))
                     = (if r = None then 0 else 1)"
            using ins r insert_one_growth by blast
          show ?thesis
          proof (cases r)
            case None
            then have "run_issues env now repo_id issues st1 num = (Inr n, st')"
              using Cons.prems Inr False doc ins r by simp
            from Cons.IH [OF this] g None show ?thesis by simp
          next
            case (Some i)
            then have "run_issues env now repo_id issues st1 (num + 1) = (Inr n, st')"
              using Cons.prems Inr False doc ins r by simp
            from Cons.IH [OF this] g Some show ?thesis by simp
          qed
        qed
      qed
    qed
  qed
qed

lemma run_fetched_count:
  assumes "run_fetched env now repo_id st fetched = Some (Inr v, st')"
  shows "v = PInt (int (length (defects st')) - int (length (defects st)))"
proof -
  obtain issues where f: "fetched = Some (Inr issues)"
    using assms by (auto simp: run_fetched_def split: option.splits sum.splits)
  obtain n where n: "run_issues env now repo_id issues st 0 = (Inr n, st')" and v: "v = PInt n"
    using assms f by (auto simp: run_fetched_def split: prod.splits sum.splits)
  show ?thesis using run_issues_count [OF n] v by simp
qed

text \<open>
  C9 (amended). When \<open>run_once\<close> returns for one of the three platform tags, it returns the
  number of records the run has added to the table: an issue counts when \<open>insert_one\<close>
  returned an identifier for it, an issue already stored is skipped or ignored and adds no
  row. For any other platform tag it returns \<open>None\<close> and leaves the store as it was.
\<close>

theorem run_once_count:
  assumes "run_once fuel env lib api now owner repo since until platform state repo_id st
             = Some (Inr v, st')"
  shows "(known_platform platform \<longrightarrow>
            v = PInt (int (length (defects st')) - int (length (defects st)))) \<and>
         (\<not> known_platform platform \<longrightarrow> v = PNone \<and> st' = st)"
proof (cases "known_platform platform")
  case True
  obtain fetched where "run_fetched env now repo_id st fetched = Some (Inr v, st')"
    using assms True
    by (auto simp: run_once_def known_platform_def split: if_splits sum.splits option.splits)
  then show ?thesis using True run_fetched_count by blast
next
  case False
  then show ?thesis using assms by (auto simp: run_once_def known_platform_def)
qed

theorem run_once_count_witness:
  "(\<exists>st1. run_once 3 EXAMPLE_ENV EXAMPLE_LIB TWO_PAGES 5 (PStr ''o'') (PStr ''r'') None None
             (PStr ''gitee'') ''open'' (PStr ''1123'') EXAMPLE_STORE = Some (Inr (PInt 2), st1) \<and>
          length (defects st1) = 2 \<and>
          run_once 3 EXAMPLE_ENV EXAMPLE_LIB TWO_PAGES 6 (PStr ''o'') (PStr ''r'') None None
             (PStr ''gitee'') ''open'' (PStr ''1123'') st1 = Some (Inr (PInt 0), st1))"
proof -
  obtain v st1 where run: "run_once 3 EXAMPLE_ENV EXAMPLE_LIB TWO_PAGES 5 (PStr ''o'') (PStr ''r'')
      None None (PStr ''gitee'') ''open'' (PStr ''1123'') EXAMPLE_STORE = Some (Inr v, st1)"
    and len: "length (defects st1) = 2"
    and again: "run_once 3 EXAMPLE_ENV EXAMPLE_LIB TWO_PAGES 6 (PStr ''o'') (PStr ''r'') None None
             (PStr ''gitee'') ''open'' (PStr ''1123'') st1 = Some (Inr (PInt 0), st1)"
  proof -
    let ?st1 = "snd (the (run_once 3 EXAMPLE_ENV EXAMPLE_LIB TWO_PAGES 5 (PStr ''o'') (PStr ''r'')
      None None (PStr ''gitee'') ''open'' (PStr ''1123'') EXAMPLE_STORE))"
    have 1: "run_once 3 EXAMPLE_ENV EXAMPLE_LIB TWO_PAGES 5 (PStr ''o'') (PStr ''r'')
      None None (PStr ''gitee'') ''open'' (PStr ''1123'') EXAMPLE_STORE = Some (Inr (PInt 2), ?st1)"
      by code_simp
    have 2: "length (defects ?st1) = 2" by code_simp
    have 3: "run_once 3 EXAMPLE_ENV EXAMPLE_LIB TWO_PAGES 6 (PStr ''o'') (PStr ''r'') None None
             (PStr ''gitee'') ''open'' (PStr ''1123'') ?st1 = Some (Inr (PInt 0), ?st1)"
      by code_simp
    show ?thesis using that [OF 1 2 3] .
  qed
  have k: "known_platform (PStr ''gitee'')" by (simp add: known_platform_def)
  have e: "length (defects EXAMPLE_STORE) = 0" by (simp add: EXAMPLE_STORE_def)
  have "v = PInt 2"
    using run_once_count [OF run] k len e by simp
  then show ?thesis using run len again by blast
qed

text \<open>
  C9 as stated fails: with a platform tag that is none of the three, \<open>run_once\<close> returns
  \<open>None\<close>, which is no count.
\<close>

theorem run_once_unknown_platform:
  "run_once 3 EXAMPLE_ENV EXAMPLE_LIB TWO_PAGES 5 (PStr ''o'') (PStr ''r'') None None
     (PStr ''bitbucket'') ''open'' (PStr ''1123'') EXAMPLE_STORE = Some (Inr PNone, EXAMPLE_STORE) \<and>
   run_once 3 EXAMPLE_ENV EXAMPLE_LIB TWO_PAGES 5 (PStr ''o'') (PStr ''r'') None None
     PNone ''open'' (PStr ''1123'') EXAMPLE_STORE = Some (Inr PNone, EXAMPLE_STORE) \<and>
   PNone \<noteq> PInt 0"
  by (simp add: run_once_def)

end
